theory Spec2Isabelle
  imports Main "HOL-Library.Multiset"
begin

section \<open>Messages of the chat platform\<close>

text \<open>
  The part of a Discord message that \<^verbatim>\<open>utils.reply_history\<close> and
  \<^verbatim>\<open>OllamaBot.on_message\<close> read: the id, the creation time, the message type and the
  reply reference. A reference carries the id of the message replied to and, when the
  gateway delivered it, the resolved message (or the marker of a deleted one).
  Timestamps are integers (any linear order would do), ids are Python ints.
\<close>

datatype MessageType = mt_default | mt_reply | mt_other nat

datatype 'm resolved_reference = ResolvedMessage 'm | DeletedReferencedMessage

datatype 'm MessageReference =
  MessageReference (message_id: "int option") (resolved: "'m resolved_reference option")

datatype DiscordMessage =
  DiscordMessage (msg_id: int) (created_at: int) (msg_type: MessageType)
    (content: string) (reference: "DiscordMessage MessageReference option")

text \<open>
  \<^verbatim>\<open>channel.fetch_message(id)\<close> either returns a message or raises; the channel is the
  function from ids to that outcome.
\<close>

datatype HTTPError = NotFound | Forbidden | HTTPException

type_synonym channel = "int \<Rightarrow> HTTPError + DiscordMessage"

section \<open>The reply-chain walk (utils.reply\_history)\<close>

text \<open>
  One turn of the loop body after the limit test (utils.py, lines 53 to 65): the message
  the generator yields next, or \<open>None\<close> where the loop breaks. The tests are in the order
  of the source: the message type, the reference (absent, or with a falsy id: \<open>None\<close> or
  \<open>0\<close>), the resolution (the cached \<open>resolved\<close> value if there is one, else the fetch, whose
  exception breaks the loop), and the \<open>isinstance\<close> test that rejects a deleted message.
\<close>

definition next_message :: "channel \<Rightarrow> DiscordMessage \<Rightarrow> DiscordMessage option" where
  "next_message ch current_message =
     (if msg_type current_message \<noteq> mt_reply then None
      else case reference current_message of
        None \<Rightarrow> None
      | Some r \<Rightarrow>
         (case message_id r of
            None \<Rightarrow> None
          | Some mid \<Rightarrow>
             if mid = 0 then None
             else (case resolved r of
                     Some (ResolvedMessage m) \<Rightarrow> Some m
                   | Some DeletedReferencedMessage \<Rightarrow> None
                   | None \<Rightarrow> (case ch mid of Inl e \<Rightarrow> None | Inr m \<Rightarrow> Some m))))"

function reply_history_loop ::
  "channel \<Rightarrow> DiscordMessage \<Rightarrow> int \<Rightarrow> int \<Rightarrow> DiscordMessage list" where
  "reply_history_loop ch current_message limit cnt =
     (if cnt \<ge> limit then []
      else case next_message ch current_message of
        None \<Rightarrow> []
      | Some resolved_message \<Rightarrow>
          resolved_message # reply_history_loop ch resolved_message limit (cnt + 1))"
  by pat_completeness auto
termination
  by (relation "measure (\<lambda>(ch, m, limit, cnt). nat (limit - cnt))") auto

declare reply_history_loop.simps [simp del]

text \<open>The generator drained into a list, as \<^verbatim>\<open>on_message\<close> does; the counter \<open>cnt\<close> (\<^verbatim>\<open>count\<close> in the source) starts at 0.\<close>

definition reply_history_iter :: "channel \<Rightarrow> DiscordMessage \<Rightarrow> int \<Rightarrow> DiscordMessage list" where
  "reply_history_iter ch message limit = reply_history_loop ch message limit 0"

text \<open>
  The stopping conditions in the words of the specification: the current message is not a
  reply, it has no usable reference, or the reference cannot be resolved to a message.
\<close>

definition not_a_reply :: "DiscordMessage \<Rightarrow> bool" where
  "not_a_reply m = (msg_type m \<noteq> mt_reply)"

definition no_reference :: "DiscordMessage \<Rightarrow> bool" where
  "no_reference m =
     (case reference m of None \<Rightarrow> True
      | Some r \<Rightarrow> (case message_id r of None \<Rightarrow> True | Some mid \<Rightarrow> mid = 0))"

definition resolution_fails :: "channel \<Rightarrow> DiscordMessage \<Rightarrow> bool" where
  "resolution_fails ch m =
     (case reference m of None \<Rightarrow> False
      | Some r \<Rightarrow>
         (case message_id r of None \<Rightarrow> False
          | Some mid \<Rightarrow>
             (case resolved r of
                Some (ResolvedMessage x) \<Rightarrow> False
              | Some DeletedReferencedMessage \<Rightarrow> True
              | None \<Rightarrow> (case ch mid of Inl e \<Rightarrow> True | Inr x \<Rightarrow> False))))"

definition walk_stops :: "channel \<Rightarrow> DiscordMessage \<Rightarrow> bool" where
  "walk_stops ch m = (not_a_reply m \<or> no_reference m \<or> resolution_fails ch m)"

section \<open>Assembling the context (OllamaBot.on\_message, lines 113 to 123)\<close>

text \<open>
  A Python dict keeps its keys in the order of their first insertion, and an assignment to
  a key already present replaces the value where it stands. The dict is the association
  list of its items.
\<close>

fun dict_setitem :: "'k \<Rightarrow> 'v \<Rightarrow> ('k \<times> 'v) list \<Rightarrow> ('k \<times> 'v) list" where
  "dict_setitem k v [] = [(k, v)]"
| "dict_setitem k v ((k', v') # d) =
     (if k' = k then (k, v) # d else (k', v') # dict_setitem k v d)"

text \<open>The comprehension \<^verbatim>\<open>{msg.id: msg for msg in message_history}\<close>.\<close>

definition dict_by_id :: "DiscordMessage list \<Rightarrow> (int \<times> DiscordMessage) list" where
  "dict_by_id msgs = foldl (\<lambda>d msg. dict_setitem (msg_id msg) msg d) [] msgs"

definition dict_values :: "('k \<times> 'v) list \<Rightarrow> 'v list" where
  "dict_values d = map snd d"

text \<open>
  Lines 117 to 123: concatenate the replies, the history window and the trigger, keep one
  message per id, sort by creation time. \<^verbatim>\<open>list.sort\<close> is stable, and so is \<open>sort_key\<close>.
\<close>

definition assemble ::
  "DiscordMessage list \<Rightarrow> DiscordMessage list \<Rightarrow> DiscordMessage \<Rightarrow> DiscordMessage list" where
  "assemble message_replies message_history message =
     sort_key created_at
       (dict_values (dict_by_id (message_replies @ message_history @ [message])))"

text \<open>
  Lines 113 to 123 with the reply walk run: \<open>history\<close> is what
  \<^verbatim>\<open>channel.history(limit=config.message_history, before=message)\<close> returned.
\<close>

definition message_context ::
  "channel \<Rightarrow> DiscordMessage list \<Rightarrow> int \<Rightarrow> DiscordMessage \<Rightarrow> DiscordMessage list" where
  "message_context ch history reply_limit message =
     assemble (reply_history_iter ch message reply_limit) history message"

section \<open>Delivering the response (OllamaBot.on\_message, lines 141 to 149)\<close>

text \<open>
  A Python \<open>str\<close> is a list of characters and \<open>len\<close> its length; one \<open>char\<close> stands for one
  code point. The response text the model call leaves is a \<open>str\<close> or \<open>None\<close>.
\<close>

definition MAX_LENGTH :: nat where
  "MAX_LENGTH = 2000"

datatype reply_action =
  Reply string
| ReplyWithFile string string string

definition deliver :: "string option \<Rightarrow> reply_action" where
  "deliver response_text =
     (case response_text of
        None \<Rightarrow> Reply ''No response generated.''
      | Some text \<Rightarrow>
          if text \<noteq> [] then
            (if length text \<le> MAX_LENGTH then Reply text
             else ReplyWithFile ''Response was too long, uploaded as file:'' ''response.txt'' text)
          else Reply ''No response generated.'')"

text \<open>
  Lines 134 to 138: the model call returns the content of the response message (a \<open>str\<close>
  or \<open>None\<close>) or raises; the exception becomes the text that is delivered.
\<close>

definition response_text_of :: "string + string option \<Rightarrow> string option" where
  "response_text_of chat_result =
     (case chat_result of
        Inl e \<Rightarrow> Some (''Error generating response: '' @ e)
      | Inr message_content \<Rightarrow> message_content)"

section \<open>Python values and the settings object\<close>

text \<open>
  The values a settings field can hold at run time: what \<^verbatim>\<open>json.load\<close> returns (floats
  left out), and \<open>PFunc\<close>, the closure \<^verbatim>\<open>lambda: self.save()\<close> that the manager passes as
  \<^verbatim>\<open>on_change\<close>. The dataclass does not check the declared types, so every field is a
  \<open>pyval\<close>. The items of a \<open>PDict\<close> are in the order of the dict.
\<close>

datatype pyval =
  PNone
| PBool bool
| PInt int
| PStr string
| PList "pyval list"
| PDict "(string \<times> pyval) list"
| PFunc

datatype py_error = AttributeError | TypeError | ValueError | OSError

definition callable :: "pyval \<Rightarrow> bool" where
  "callable v = (v = PFunc)"

text \<open>
  The dataclass \<^verbatim>\<open>GuildSettings\<close> (settings_manager.py, lines 7 to 52), with its fields in
  the order of their declaration.
\<close>

record GuildSettings =
  guild_id :: pyval
  system_prompt :: pyval
  model :: pyval
  required_role :: pyval
  reply_history :: pyval
  message_history :: pyval
  on_change :: pyval

definition field_names :: "string list" where
  "field_names = [''guild_id'', ''system_prompt'', ''model'', ''required_role'',
     ''reply_history'', ''message_history'', ''on_change'']"

text \<open>
  The object as \<^verbatim>\<open>__new__\<close> leaves it: no slot is set. The only slot read before it is
  written is \<^verbatim>\<open>on_change\<close>, through \<^verbatim>\<open>getattr(self, "on_change", None)\<close>, which gives
  \<open>None\<close> for an unset slot; so an unset slot is modelled as \<open>PNone\<close>.
\<close>

definition unset_object :: GuildSettings where
  "unset_object = \<lparr>guild_id = PNone, system_prompt = PNone, model = PNone,
     required_role = PNone, reply_history = PNone, message_history = PNone,
     on_change = PNone\<rparr>"

text \<open>
  \<^verbatim>\<open>object.__setattr__(self, key, value)\<close> on a class with slots: a name that is no slot
  raises \<^verbatim>\<open>AttributeError\<close>.
\<close>

definition object_setattr :: "GuildSettings \<Rightarrow> string \<Rightarrow> pyval \<Rightarrow> py_error + GuildSettings" where
  "object_setattr self key v =
     (if key = ''guild_id'' then Inr (self\<lparr>guild_id := v\<rparr>)
      else if key = ''system_prompt'' then Inr (self\<lparr>system_prompt := v\<rparr>)
      else if key = ''model'' then Inr (self\<lparr>model := v\<rparr>)
      else if key = ''required_role'' then Inr (self\<lparr>required_role := v\<rparr>)
      else if key = ''reply_history'' then Inr (self\<lparr>reply_history := v\<rparr>)
      else if key = ''message_history'' then Inr (self\<lparr>message_history := v\<rparr>)
      else if key = ''on_change'' then Inr (self\<lparr>on_change := v\<rparr>)
      else Inl AttributeError)"

text \<open>
  \<^verbatim>\<open>GuildSettings.dict_factory\<close> and \<^verbatim>\<open>asdict(settings, dict_factory=...)\<close>: the fields
  in order, without the hook and without the fields that are \<open>None\<close>.
\<close>

definition excluded :: "string list" where
  "excluded = [''on_change'']"

definition dict_factory :: "(string \<times> pyval) list \<Rightarrow> (string \<times> pyval) list" where
  "dict_factory items = filter (\<lambda>(k, v). v \<noteq> PNone \<and> k \<notin> set excluded) items"

definition asdict :: "GuildSettings \<Rightarrow> (string \<times> pyval) list" where
  "asdict settings = dict_factory
     [(''guild_id'', guild_id settings), (''system_prompt'', system_prompt settings),
      (''model'', model settings), (''required_role'', required_role settings),
      (''reply_history'', reply_history settings),
      (''message_history'', message_history settings), (''on_change'', on_change settings)]"

section \<open>Integers in the JSON file\<close>

text \<open>
  \<^verbatim>\<open>json.dump\<close> writes an int, as a dict key or as a value, with \<^verbatim>\<open>int.__repr__\<close>, its
  decimal representation; \<^verbatim>\<open>load\<close> reads a key back with \<^verbatim>\<open>int(gid_str)\<close>. Both
  conversions raise \<^verbatim>\<open>ValueError\<close> when the number has more digits than the interpreter
  allows, 4300 unless it is configured otherwise (\<^verbatim>\<open>sys.int_info.default_max_str_digits\<close>).

  A \<open>char\<close> stands for a code point below 256, so the strings of the model are the Python
  strings over these code points; a string with another character has no counterpart
  here.
\<close>

definition int_max_str_digits :: nat where
  "int_max_str_digits = 4300"

definition digit_char :: "nat \<Rightarrow> char" where
  "digit_char d = ''0123456789'' ! d"

function digits :: "nat \<Rightarrow> string" where
  "digits n = (if n < 10 then [digit_char n] else digits (n div 10) @ [digit_char (n mod 10)])"
  by pat_completeness auto
termination
  by (relation "measure id") auto

declare digits.simps [simp del]

text \<open>The decimal representation of an int, and \<^verbatim>\<open>int.__repr__\<close> with its limit.\<close>

definition str_int :: "int \<Rightarrow> string" where
  "str_int i = (if i < 0 then CHR ''-'' # digits (nat (- i)) else digits (nat i))"

definition int_repr :: "int \<Rightarrow> string option" where
  "int_repr i =
     (if length (digits (nat \<bar>i\<bar>)) > int_max_str_digits then None else Some (str_int i))"

text \<open>
  \<^verbatim>\<open>int(s)\<close> for a string: whitespace is stripped at both ends, one sign may follow, then
  come digits, with single underscores allowed between two digits. Among the code points
  below 256 the digits are \<^verbatim>\<open>0\<close> to \<^verbatim>\<open>9\<close>, and the whitespace is tab, line feed, vertical
  tab, form feed, carriage return, space, next line (U+0085) and no-break space (U+00A0);
  the separators U+001C to U+001F, which \<^verbatim>\<open>str.isspace\<close> accepts, are not stripped. A
  string with more than \<open>int_max_str_digits\<close> digits (leading zeros count, underscores
  and the sign do not) raises \<^verbatim>\<open>ValueError\<close> like any other string that is not read.
\<close>

definition digit_val :: "char \<Rightarrow> nat option" where
  "digit_val c =
     (let code = (of_char c :: nat)
      in if 48 \<le> code \<and> code \<le> 57 then Some (code - 48) else None)"

definition is_digit :: "char \<Rightarrow> bool" where
  "is_digit c = (digit_val c \<noteq> None)"

definition is_space :: "char \<Rightarrow> bool" where
  "is_space c = (of_char c \<in> set [9, 10, 11, 12, 13, 32, 133, 160 :: nat])"

definition strip :: "string \<Rightarrow> string" where
  "strip s = rev (dropWhile is_space (rev (dropWhile is_space s)))"

text \<open>The digits after the first one; \<open>acc\<close> is the value read so far.\<close>

fun parse_digits :: "nat \<Rightarrow> string \<Rightarrow> nat option" where
  "parse_digits acc [] = Some acc"
| "parse_digits acc [c] =
     (case digit_val c of None \<Rightarrow> None | Some v \<Rightarrow> Some (10 * acc + v))"
| "parse_digits acc (c # d # cs) =
     (if c = CHR ''_'' then
        (case digit_val d of None \<Rightarrow> None | Some v \<Rightarrow> parse_digits (10 * acc + v) cs)
      else case digit_val c of None \<Rightarrow> None | Some v \<Rightarrow> parse_digits (10 * acc + v) (d # cs))"

definition parse_nat :: "string \<Rightarrow> nat option" where
  "parse_nat s =
     (if length (filter is_digit s) > int_max_str_digits then None
      else case s of [] \<Rightarrow> None
           | c # cs \<Rightarrow> (case digit_val c of None \<Rightarrow> None | Some v \<Rightarrow> parse_digits v cs))"

definition py_int :: "string \<Rightarrow> int option" where
  "py_int s =
     (case strip s of
        [] \<Rightarrow> None
      | c # cs \<Rightarrow>
          if c = CHR ''-'' then map_option (\<lambda>n. - int n) (parse_nat cs)
          else if c = CHR ''+'' then map_option int (parse_nat cs)
          else map_option int (parse_nat (c # cs)))"

text \<open>
  What \<^verbatim>\<open>json.dump\<close> can write: it raises \<^verbatim>\<open>TypeError\<close> on a function and \<^verbatim>\<open>ValueError\<close>
  on an int beyond the limit of \<^verbatim>\<open>int.__repr__\<close>, at any depth.
\<close>

fun json_serializable :: "pyval \<Rightarrow> bool" where
  "json_serializable PFunc = False"
| "json_serializable (PInt i) = (int_repr i \<noteq> None)"
| "json_serializable (PList vs) = list_all json_serializable vs"
| "json_serializable (PDict kvs) = list_all (\<lambda>kv. json_serializable (snd kv)) kvs"
| "json_serializable v = True"

section \<open>The settings manager and its backing file\<close>

text \<open>
  The backing file, as \<^verbatim>\<open>load\<close> meets it. \<open>Inaccessible\<close>: the test
  \<^verbatim>\<open>Path(self.path).exists()\<close> itself raises; \<^verbatim>\<open>pathlib\<close> answers \<open>False\<close> when the path
  does not exist and lets every other \<^verbatim>\<open>OSError\<close> of \<^verbatim>\<open>stat\<close> through, such as
  \<^verbatim>\<open>PermissionError\<close> for a directory that may not be searched. \<open>Missing\<close>: the test
  answers \<open>False\<close>. \<open>Unreadable\<close>: the file exists and \<^verbatim>\<open>open\<close> or \<^verbatim>\<open>json.load\<close> raises
  (the latter also on an integer literal beyond the digit limit). \<open>Json v\<close>: the file
  exists and \<^verbatim>\<open>json.load\<close> returns \<open>v\<close>.
\<close>

datatype file_state = Inaccessible | Missing | Unreadable | Json pyval

text \<open>
  The state the manager works on. Settings objects are mutable and shared between the
  dict and its callers, so they live in a heap and the dict \<open>guild_settings\<close> maps a
  guild id to an address; an address is the position at which the object was allocated.
  \<open>writable\<close> says whether creating the directory and opening the file for writing
  succeed. \<open>saves\<close> counts the calls of \<^verbatim>\<open>save\<close>; it is not part of the program.
\<close>

record state =
  heap :: "GuildSettings list"
  guild_settings :: "(int \<times> nat) list"
  backing_file :: file_state
  writable :: bool
  saves :: nat

datatype 'a result = Return 'a state | Raise py_error state

text \<open>
  \<^verbatim>\<open>SettingsManager.save\<close> (lines 151 to 169). The dict comprehension serializes every
  item of \<open>guild_settings\<close>; \<^verbatim>\<open>json.dump\<close> turns the int keys into strings, with
  \<^verbatim>\<open>int.__repr__\<close>. An exception is caught and logged: when the file cannot be opened it
  stays as it was, when \<^verbatim>\<open>json.dump\<close> raises, the file, already truncated, is left
  incomplete.
\<close>

definition serializable_of :: "state \<Rightarrow> (int \<times> (string \<times> pyval) list) list" where
  "serializable_of st = map (\<lambda>(gid, a). (gid, asdict (heap st ! a))) (guild_settings st)"

definition json_dump :: "(int \<times> (string \<times> pyval) list) list \<Rightarrow> pyval option" where
  "json_dump serializable =
     (if list_all (\<lambda>(gid, d). int_repr gid \<noteq> None \<and>
                      list_all (\<lambda>(k, v). json_serializable v) d) serializable
      then Some (PDict (map (\<lambda>(gid, d). (str_int gid, PDict d)) serializable))
      else None)"

definition save :: "state \<Rightarrow> state" where
  "save st =
     (let st1 = st\<lparr>saves := saves st + 1\<rparr>
      in if \<not> writable st1 then st1
         else case json_dump (serializable_of st1) of
                None \<Rightarrow> st1\<lparr>backing_file := Unreadable\<rparr>
              | Some v \<Rightarrow> st1\<lparr>backing_file := Json v\<rparr>)"

text \<open>
  \<^verbatim>\<open>GuildSettings.__setattr__\<close> (lines 57 to 67) on the object at address \<open>self\<close>: set the
  attribute, then, unless the key is \<^verbatim>\<open>on_change\<close>, call the hook if it is callable. The
  hook is \<^verbatim>\<open>lambda: self.save()\<close> of the manager.
\<close>

definition GuildSettings_setattr :: "state \<Rightarrow> nat \<Rightarrow> string \<Rightarrow> pyval \<Rightarrow> unit result" where
  "GuildSettings_setattr st self key v =
     (case object_setattr (heap st ! self) key v of
        Inl e \<Rightarrow> Raise e st
      | Inr obj \<Rightarrow>
          let st1 = st\<lparr>heap := (heap st)[self := obj]\<rparr>
          in if key \<noteq> ''on_change'' \<and> callable (on_change obj) then Return () (save st1)
             else Return () st1)"

text \<open>
  The \<^verbatim>\<open>__init__\<close> the dataclass generates, called with keyword arguments: an unknown
  keyword or a missing \<^verbatim>\<open>guild_id\<close> raises \<^verbatim>\<open>TypeError\<close>; then each field is assigned in
  the order of declaration, every assignment going through \<^verbatim>\<open>__setattr__\<close>. (Python
  allocates the object before it binds the arguments; the object of a failed call is
  unreachable and is not allocated here.)
\<close>

definition keyword_argument :: "(string \<times> pyval) list \<Rightarrow> string \<Rightarrow> pyval \<Rightarrow> pyval" where
  "keyword_argument kwargs name default_value =
     (case map_of kwargs name of None \<Rightarrow> default_value | Some v \<Rightarrow> v)"

definition assign_fields :: "state \<Rightarrow> nat \<Rightarrow> (string \<times> pyval) list \<Rightarrow> unit result" where
  "assign_fields st self assignments =
     foldl (\<lambda>r (k, v). (case r of Raise e s \<Rightarrow> Raise e s
                          | Return u s \<Rightarrow> GuildSettings_setattr s self k v))
       (Return () st) assignments"

definition GuildSettings_init :: "state \<Rightarrow> (string \<times> pyval) list \<Rightarrow> nat result" where
  "GuildSettings_init st kwargs =
     (if \<not> list_all (\<lambda>k. k \<in> set field_names) (map fst kwargs) then Raise TypeError st
      else if map_of kwargs ''guild_id'' = None then Raise TypeError st
      else
        (let self = length (heap st);
             st0 = st\<lparr>heap := heap st @ [unset_object]\<rparr>
         in (case assign_fields st0 self
                 [(''guild_id'', keyword_argument kwargs ''guild_id'' PNone),
                  (''system_prompt'',
                     keyword_argument kwargs ''system_prompt'' (PStr ''You are a helpful assistant.'')),
                  (''model'', keyword_argument kwargs ''model'' (PStr ''llama3'')),
                  (''required_role'', keyword_argument kwargs ''required_role'' PNone),
                  (''reply_history'', keyword_argument kwargs ''reply_history'' (PInt 10)),
                  (''message_history'', keyword_argument kwargs ''message_history'' (PInt 10)),
                  (''on_change'', keyword_argument kwargs ''on_change'' PNone)]
             of Raise e s \<Rightarrow> Raise e s
              | Return u s \<Rightarrow> Return self s)))"

text \<open>\<^verbatim>\<open>SettingsManager.__setitem__\<close> (lines 117 to 125).\<close>

definition setitem :: "state \<Rightarrow> int \<Rightarrow> nat \<Rightarrow> state" where
  "setitem st key a = st\<lparr>guild_settings := dict_setitem key a (guild_settings st)\<rparr>"

text \<open>
  \<^verbatim>\<open>SettingsManager.__getitem__\<close> (lines 102 to 115): the object stored under the key; for
  a key not in the dict a new object with the defaults and the hook is stored first.
\<close>

definition getitem :: "state \<Rightarrow> int \<Rightarrow> nat result" where
  "getitem st key =
     (case map_of (guild_settings st) key of
        Some a \<Rightarrow> Return a st
      | None \<Rightarrow>
          (case GuildSettings_init st [(''guild_id'', PInt key), (''on_change'', PFunc)] of
             Raise e s \<Rightarrow> Raise e s
           | Return a s \<Rightarrow> Return a (setitem s key a)))"

text \<open>
  The loop of \<^verbatim>\<open>load\<close> (lines 139 to 143) over the items of the top-level dict. The right
  side of the assignment is evaluated first: \<^verbatim>\<open>**data\<close> needs a dict, a key
  \<^verbatim>\<open>on_change\<close> in it clashes with the keyword given (\<^verbatim>\<open>TypeError\<close> both); then
  \<^verbatim>\<open>int(gid_str)\<close> (\<^verbatim>\<open>ValueError\<close>), then \<^verbatim>\<open>__setitem__\<close>.
\<close>

fun load_items :: "state \<Rightarrow> (string \<times> pyval) list \<Rightarrow> unit result" where
  "load_items st [] = Return () st"
| "load_items st ((gid_str, data) # rest) =
     (case data of
        PDict kwargs \<Rightarrow>
          if ''on_change'' \<in> set (map fst kwargs) then Raise TypeError st
          else (case GuildSettings_init st (kwargs @ [(''on_change'', PFunc)]) of
                  Raise e s \<Rightarrow> Raise e s
                | Return a s \<Rightarrow>
                    (case py_int gid_str of
                       None \<Rightarrow> Raise ValueError s
                     | Some gid \<Rightarrow> load_items (setitem s gid a) rest))
      | _ \<Rightarrow> Raise TypeError st)"

text \<open>
  \<^verbatim>\<open>SettingsManager.load\<close> (lines 127 to 149). The existence test of line 131 stands
  before the \<^verbatim>\<open>try\<close>, so an exception of it leaves \<^verbatim>\<open>load\<close>; a missing file is
  logged and nothing changes; any exception while reading, parsing or building the
  settings is caught and clears the dict. \<^verbatim>\<open>data.items()\<close> raises \<^verbatim>\<open>AttributeError\<close> when
  the top-level value is no dict.
\<close>

definition load :: "state \<Rightarrow> unit result" where
  "load st =
     (case backing_file st of
        Inaccessible \<Rightarrow> Raise OSError st
      | Missing \<Rightarrow> Return () st
      | Unreadable \<Rightarrow> Return () (st\<lparr>guild_settings := []\<rparr>)
      | Json data \<Rightarrow>
          (case data of
             PDict items \<Rightarrow>
               (case load_items st items of
                  Return u s \<Rightarrow> Return () s
                | Raise e s \<Rightarrow> Return () (s\<lparr>guild_settings := []\<rparr>))
           | _ \<Rightarrow> Return () (st\<lparr>guild_settings := []\<rparr>)))"

text \<open>
  \<^verbatim>\<open>SettingsManager.__init__\<close> (lines 91 to 100): a fresh manager on the same path starts
  with an empty dict and loads the file; an exception of \<^verbatim>\<open>load\<close> leaves the constructor.
\<close>

definition SettingsManager_init :: "state \<Rightarrow> unit result" where
  "SettingsManager_init st = load (st\<lparr>guild_settings := []\<rparr>)"

text \<open>An assignment \<^verbatim>\<open>config.key = v\<close> of a command handler, on the object at \<open>a\<close>.\<close>

definition data_fields :: "string list" where
  "data_fields = [''guild_id'', ''system_prompt'', ''model'', ''required_role'',
     ''reply_history'', ''message_history'']"

text \<open>The items of the dict with the objects in place of their addresses.\<close>

definition settings_items :: "state \<Rightarrow> (int \<times> GuildSettings) list" where
  "settings_items st = map (\<lambda>(gid, a). (gid, heap st ! a)) (guild_settings st)"

section \<open>Notions used to state the properties of the settings store\<close>

text \<open>
  The object \<^verbatim>\<open>__init__\<close> leaves for given keyword arguments: every field holds its
  argument, or its default where the argument is absent.
\<close>

definition constructed :: "(string \<times> pyval) list \<Rightarrow> GuildSettings" where
  "constructed kwargs =
     \<lparr>guild_id = keyword_argument kwargs ''guild_id'' PNone,
      system_prompt = keyword_argument kwargs ''system_prompt'' (PStr ''You are a helpful assistant.''),
      model = keyword_argument kwargs ''model'' (PStr ''llama3''),
      required_role = keyword_argument kwargs ''required_role'' PNone,
      reply_history = keyword_argument kwargs ''reply_history'' (PInt 10),
      message_history = keyword_argument kwargs ''message_history'' (PInt 10),
      on_change = keyword_argument kwargs ''on_change'' PNone\<rparr>"

text \<open>The settings \<^verbatim>\<open>__getitem__\<close> creates for an unseen guild id.\<close>

definition default_settings :: "int \<Rightarrow> GuildSettings" where
  "default_settings gid =
     \<lparr>guild_id = PInt gid, system_prompt = PStr ''You are a helpful assistant.'',
      model = PStr ''llama3'', required_role = PNone, reply_history = PInt 10,
      message_history = PInt 10, on_change = PFunc\<rparr>"

text \<open>The state a call ends in, whether it returned or raised.\<close>

definition final_state :: "'a result \<Rightarrow> state" where
  "final_state r = (case r of Return x s \<Rightarrow> s | Raise e s \<Rightarrow> s)"

text \<open>
  An item of the dict that \<^verbatim>\<open>save\<close> writes in full: \<^verbatim>\<open>int.__repr__\<close> gives the key, no
  field other than \<^verbatim>\<open>required_role\<close> is \<open>None\<close> (a \<open>None\<close> is dropped by the dict
  factory) and every field is JSON data. Settings whose fields have their declared types
  (\<open>int\<close>, \<open>str\<close>, \<open>Optional[int]\<close>), under a guild id, are of this kind as long as
  their integers have no more than 4300 digits.
\<close>

definition persistable :: "int \<times> GuildSettings \<Rightarrow> bool" where
  "persistable item =
     (int_repr (fst item) \<noteq> None \<and>
      guild_id (snd item) \<noteq> PNone \<and> system_prompt (snd item) \<noteq> PNone \<and>
      model (snd item) \<noteq> PNone \<and> reply_history (snd item) \<noteq> PNone \<and>
      message_history (snd item) \<noteq> PNone \<and>
      list_all json_serializable
        [guild_id (snd item), system_prompt (snd item), model (snd item),
         required_role (snd item), reply_history (snd item), message_history (snd item)])"

text \<open>What \<^verbatim>\<open>save\<close> writes for one item of the dict.\<close>

definition encode_item :: "int \<times> GuildSettings \<Rightarrow> string \<times> pyval" where
  "encode_item item = (str_int (fst item), PDict (asdict (snd item)))"

text \<open>
  The object model of Python: every address in the dict is that of an allocated object,
  and the keys of a dict are distinct. A settings object is hooked when its
  \<^verbatim>\<open>on_change\<close> is the manager's closure.
\<close>

definition valid_addresses :: "state \<Rightarrow> bool" where
  "valid_addresses st = list_all (\<lambda>a. a < length (heap st)) (map snd (guild_settings st))"

definition hooked :: "state \<Rightarrow> bool" where
  "hooked st = list_all (\<lambda>obj. on_change obj = PFunc) (heap st)"

definition store_invariant :: "state \<Rightarrow> bool" where
  "store_invariant st =
     (valid_addresses st \<and> hooked st \<and> distinct (map fst (guild_settings st)))"

text \<open>
  The states the program can be in. It starts by creating the manager
  (\<^verbatim>\<open>SettingsManager("./data/settings.json")\<close> in \<^verbatim>\<open>OllamaBot.__init__\<close>) on some file,
  and there is a manager only when the constructor returns; from then on the handlers
  look settings up and assign to their data fields, and the file system may change under
  the program.
\<close>

definition fresh_state :: "file_state \<Rightarrow> bool \<Rightarrow> state" where
  "fresh_state f w = \<lparr>heap = [], guild_settings = [], backing_file = f, writable = w, saves = 0\<rparr>"

inductive reachable :: "state \<Rightarrow> bool" where
  start: "SettingsManager_init (fresh_state f w) = Return () st \<Longrightarrow> reachable st"
| lookup: "reachable st \<Longrightarrow> getitem st gid = Return a st' \<Longrightarrow> reachable st'"
| assign: "reachable st \<Longrightarrow> a < length (heap st) \<Longrightarrow> key \<in> set data_fields \<Longrightarrow>
     GuildSettings_setattr st a key v = Return () st' \<Longrightarrow> reachable st'"
| outside: "reachable st \<Longrightarrow> reachable (st\<lparr>backing_file := f, writable := w\<rparr>)"

text \<open>
  The files \<^verbatim>\<open>load\<close> rejects, read off its code: a file that exists and cannot be read
  or parsed, a top-level value that is no dict, or an entry that is not accepted. An entry is accepted
  when its value is a dict whose keys are data fields (a key \<^verbatim>\<open>on_change\<close> or an unknown
  key raises), with a \<^verbatim>\<open>guild_id\<close> among them, and its key is read by \<^verbatim>\<open>int\<close>.
\<close>

definition entry_accepted :: "string \<times> pyval \<Rightarrow> bool" where
  "entry_accepted entry =
     (case snd entry of
        PDict kwargs \<Rightarrow>
          list_all (\<lambda>k. k \<in> set data_fields) (map fst kwargs) \<and>
          map_of kwargs ''guild_id'' \<noteq> None \<and> py_int (fst entry) \<noteq> None
      | _ \<Rightarrow> False)"

definition rejected :: "file_state \<Rightarrow> bool" where
  "rejected f =
     (case f of
        Inaccessible \<Rightarrow> False
      | Missing \<Rightarrow> False
      | Unreadable \<Rightarrow> True
      | Json data \<Rightarrow> (case data of PDict items \<Rightarrow> \<not> list_all entry_accepted items | _ \<Rightarrow> True))"

text \<open>
  A malformed file in the words of the specification (sections 3 and 6): one that does not
  parse, or whose content violates the schema. The schema: a JSON object whose keys are
  stringified guild ids and whose values are objects with the fields of the settings, each
  of its declared type (the ids integers, the prompt and the model name strings, the role
  an integer or null, the two limits non-negative integers).
\<close>

definition is_str :: "pyval \<Rightarrow> bool" where
  "is_str v = (case v of PStr s \<Rightarrow> True | _ \<Rightarrow> False)"

definition is_int :: "pyval \<Rightarrow> bool" where
  "is_int v = (case v of PInt i \<Rightarrow> True | _ \<Rightarrow> False)"

definition is_limit :: "pyval \<Rightarrow> bool" where
  "is_limit v = (case v of PInt i \<Rightarrow> 0 \<le> i | _ \<Rightarrow> False)"

definition field_conforms :: "string \<times> pyval \<Rightarrow> bool" where
  "field_conforms field =
     (if fst field = ''guild_id'' then is_int (snd field)
      else if fst field = ''system_prompt'' \<or> fst field = ''model'' then is_str (snd field)
      else if fst field = ''required_role'' then snd field = PNone \<or> is_int (snd field)
      else if fst field = ''reply_history'' \<or> fst field = ''message_history''
        then is_limit (snd field)
      else False)"

definition schema_conforms :: "pyval \<Rightarrow> bool" where
  "schema_conforms data =
     (case data of
        PDict items \<Rightarrow>
          list_all (\<lambda>entry. py_int (fst entry) \<noteq> None \<and>
                      (case snd entry of PDict kwargs \<Rightarrow> list_all field_conforms kwargs
                       | _ \<Rightarrow> False)) items
      | _ \<Rightarrow> False)"

definition malformed :: "file_state \<Rightarrow> bool" where
  "malformed f =
     (case f of
        Inaccessible \<Rightarrow> False
      | Missing \<Rightarrow> False
      | Unreadable \<Rightarrow> True
      | Json data \<Rightarrow> \<not> schema_conforms data)"

section \<open>Example states of the settings store\<close>

text \<open>
  A file whose only entry gives \<^verbatim>\<open>reply_history\<close> as a string; the manager after the
  lookup of guild 1, and after the lookups of guilds 1 and 2, started without a file; the
  manager started on a file that does not parse.
\<close>

definition wrong_type_file :: pyval where
  "wrong_type_file =
     PDict [(''1'', PDict [(''guild_id'', PInt 1), (''reply_history'', PStr ''ten'')])]"

definition one_guild :: state where
  "one_guild = \<lparr>heap = [default_settings 1], guild_settings = [(1, 0)],
     backing_file = Missing, writable = True, saves = 0\<rparr>"

definition two_guilds :: state where
  "two_guilds = \<lparr>heap = [default_settings 1, default_settings 2],
     guild_settings = [(1, 0), (2, 1)], backing_file = Missing, writable = True, saves = 0\<rparr>"

definition unreadable_start :: state where
  "unreadable_start = fresh_state Unreadable True"



section \<open>The scenario of the specification\<close>

text \<open>
  Five messages with increasing ids and creation times. \<open>M5\<close> replies to \<open>M4\<close> (delivered
  resolved by the gateway), \<open>M4\<close> replies to \<open>M3\<close> (to be fetched), \<open>M3\<close> is no reply.
\<close>

definition M1 :: DiscordMessage where
  "M1 = DiscordMessage 1 10 mt_default ''one'' None"

definition M2 :: DiscordMessage where
  "M2 = DiscordMessage 2 20 mt_default ''two'' None"

definition M3 :: DiscordMessage where
  "M3 = DiscordMessage 3 30 mt_default ''three'' None"

definition M4 :: DiscordMessage where
  "M4 = DiscordMessage 4 40 mt_reply ''four'' (Some (MessageReference (Some 3) None))"

definition M5 :: DiscordMessage where
  "M5 = DiscordMessage 5 50 mt_reply ''five''
          (Some (MessageReference (Some 4) (Some (ResolvedMessage M4))))"

definition example_channel :: channel where
  "example_channel i = (if i = 3 then Inr M3 else Inl NotFound)"

section \<open>Properties of the reply walk and of the assembled context\<close>

subsection \<open>The dict keeps one item per key\<close>

lemma keys_dict_setitem:
  "map fst (dict_setitem k v d) = (if k \<in> fst ` set d then map fst d else map fst d @ [k])"
  by (induction k v d rule: dict_setitem.induct) (auto simp: image_iff)

lemma distinct_dict_setitem:
  "distinct (map fst d) \<Longrightarrow> distinct (map fst (dict_setitem k v d))"
  by (simp add: keys_dict_setitem)

lemma dom_dict_setitem: "fst ` set (dict_setitem k v d) = insert k (fst ` set d)"
proof -
  have "set (map fst (dict_setitem k v d)) = insert k (set (map fst d))"
    by (subst keys_dict_setitem) auto
  then show ?thesis by simp
qed

lemma keyed_dict_setitem:
  "map (msg_id \<circ> snd) d = map fst d \<Longrightarrow>
   map (msg_id \<circ> snd) (dict_setitem (msg_id m) m d) = map fst (dict_setitem (msg_id m) m d)"
  by (induction "msg_id m" m d rule: dict_setitem.induct) (simp_all del: map_eq_conv)

lemma fold_dict_setitem_by_id:
  "distinct (map fst d) \<Longrightarrow> map (msg_id \<circ> snd) d = map fst d \<Longrightarrow>
   distinct (map fst (foldl (\<lambda>d msg. dict_setitem (msg_id msg) msg d) d msgs)) \<and>
   map (msg_id \<circ> snd) (foldl (\<lambda>d msg. dict_setitem (msg_id msg) msg d) d msgs) =
     map fst (foldl (\<lambda>d msg. dict_setitem (msg_id msg) msg d) d msgs) \<and>
   fst ` set (foldl (\<lambda>d msg. dict_setitem (msg_id msg) msg d) d msgs) =
     fst ` set d \<union> msg_id ` set msgs"
proof (induction msgs arbitrary: d)
  case Nil
  then show ?case by simp
next
  case (Cons m ms)
  have d: "distinct (map fst (dict_setitem (msg_id m) m d))"
    using Cons.prems(1) by (rule distinct_dict_setitem)
  have k: "map (msg_id \<circ> snd) (dict_setitem (msg_id m) m d) =
           map fst (dict_setitem (msg_id m) m d)"
    using Cons.prems(2) by (rule keyed_dict_setitem)
  from Cons.IH [OF d k] show ?case
    by (simp add: dom_dict_setitem del: map_eq_conv)
qed

lemma ids_dict_by_id:
  "map msg_id (dict_values (dict_by_id msgs)) = map fst (dict_by_id msgs)"
  "distinct (map fst (dict_by_id msgs))"
  "fst ` set (dict_by_id msgs) = msg_id ` set msgs"
  using fold_dict_setitem_by_id [of "[]" msgs]
  by (simp_all add: dict_by_id_def dict_values_def del: map_eq_conv)

lemma mset_ids_assemble:
  "mset (map msg_id (assemble rs hs m)) = mset (map fst (dict_by_id (rs @ hs @ [m])))"
proof -
  have "mset (map msg_id (assemble rs hs m)) =
        image_mset msg_id (mset (dict_values (dict_by_id (rs @ hs @ [m]))))"
    by (simp add: assemble_def)
  also have "\<dots> = mset (map msg_id (dict_values (dict_by_id (rs @ hs @ [m]))))"
    by simp
  finally show ?thesis by (simp only: ids_dict_by_id(1))
qed

text \<open>
  C1. Whatever the reply walk and the history window returned, duplicates included, the
  list after lines 117 to 123 holds each message id of the candidates exactly once: its
  ids are pairwise distinct, they are the ids of the candidates, and there are as many
  messages as distinct ids.
\<close>

theorem assemble_one_entry_per_id:
  "distinct (map msg_id (assemble rs hs m)) \<and>
   set (map msg_id (assemble rs hs m)) = msg_id ` set (rs @ hs @ [m]) \<and>
   length (assemble rs hs m) = card (msg_id ` set (rs @ hs @ [m]))"
proof -
  let ?out = "map msg_id (assemble rs hs m)"
  let ?keys = "map fst (dict_by_id (rs @ hs @ [m]))"
  have m: "mset ?out = mset ?keys" by (rule mset_ids_assemble)
  have d: "distinct ?out"
    using mset_eq_imp_distinct_iff [OF m] ids_dict_by_id(2) by blast
  have s: "set ?out = msg_id ` set (rs @ hs @ [m])"
    using mset_eq_setD [OF m] ids_dict_by_id(3) [of "rs @ hs @ [m]"] by simp
  have "length (assemble rs hs m) = length ?out" by simp
  also have "\<dots> = card (set ?out)" using d by (simp only: distinct_card)
  finally show ?thesis using d s by simp
qed

text \<open>
  C2. The assembled list is sorted by creation time, non-decreasing, for every input.
\<close>

theorem assemble_sorted_by_created_at:
  "sorted (map created_at (assemble rs hs m))"
  by (simp add: assemble_def)

subsection \<open>The reply walk\<close>

lemma walk_stops_iff: "walk_stops ch m \<longleftrightarrow> next_message ch m = None"
  by (auto simp: walk_stops_def not_a_reply_def no_reference_def resolution_fails_def
      next_message_def split: option.splits resolved_reference.splits sum.splits)

lemma length_reply_history_loop:
  "int (length (reply_history_loop ch m limit c)) \<le> max 0 (limit - c)"
proof (induction ch m limit c rule: reply_history_loop.induct)
  case (1 ch m limit c)
  show ?case
  proof (cases "c \<ge> limit")
    case True
    then show ?thesis by (simp add: reply_history_loop.simps [of ch m limit c])
  next
    case False
    show ?thesis
    proof (cases "next_message ch m")
      case None
      with False show ?thesis by (simp add: reply_history_loop.simps [of ch m limit c])
    next
      case (Some r)
      with False "1.IH" [of r] show ?thesis
        by (simp add: reply_history_loop.simps [of ch m limit c])
    qed
  qed
qed

lemma reply_history_loop_stops:
  "k \<le> length (reply_history_loop ch m limit c) \<Longrightarrow> int k < limit - c \<Longrightarrow>
   next_message ch ((m # reply_history_loop ch m limit c) ! k) = None \<Longrightarrow>
   length (reply_history_loop ch m limit c) = k"
proof (induction ch m limit c arbitrary: k rule: reply_history_loop.induct)
  case (1 ch m limit c)
  show ?case
  proof (cases "c \<ge> limit")
    case True
    with "1.prems" show ?thesis by simp
  next
    case False
    show ?thesis
    proof (cases "next_message ch m")
      case None
      with False "1.prems" show ?thesis
        by (simp add: reply_history_loop.simps [of ch m limit c])
    next
      case (Some r)
      have eq: "reply_history_loop ch m limit c = r # reply_history_loop ch r limit (c + 1)"
        using False Some by (simp add: reply_history_loop.simps [of ch m limit c])
      show ?thesis
      proof (cases k)
        case 0
        with "1.prems"(3) Some show ?thesis by simp
      next
        case (Suc j)
        have "length (reply_history_loop ch r limit (c + 1)) = j"
          using "1.IH" [of r j] False Some "1.prems" Suc eq by simp
        with eq Suc show ?thesis by simp
      qed
    qed
  qed
qed

lemma reply_history_loop_short:
  "int (length (reply_history_loop ch m limit c)) < limit - c \<Longrightarrow>
   next_message ch (last (m # reply_history_loop ch m limit c)) = None"
proof (induction ch m limit c rule: reply_history_loop.induct)
  case (1 ch m limit c)
  show ?case
  proof (cases "c \<ge> limit")
    case True
    with "1.prems" show ?thesis by simp
  next
    case False
    show ?thesis
    proof (cases "next_message ch m")
      case None
      with False show ?thesis
        by (simp add: reply_history_loop.simps [of ch m limit c])
    next
      case (Some r)
      have eq: "reply_history_loop ch m limit c = r # reply_history_loop ch r limit (c + 1)"
        using False Some by (simp add: reply_history_loop.simps [of ch m limit c])
      have "next_message ch (last (r # reply_history_loop ch r limit (c + 1))) = None"
        using "1.IH" [of r] False Some "1.prems" eq by simp
      with eq show ?thesis by simp
    qed
  qed
qed

lemma reply_history_two:
  assumes "next_message ch a = Some b" "next_message ch b = Some c"
  shows "reply_history_iter ch a 2 = [b, c]"
proof -
  have "reply_history_loop ch c 2 2 = []"
    by (simp add: reply_history_loop.simps [of ch c 2 2])
  then have "reply_history_loop ch b 2 1 = [c]"
    using assms(2) by (simp add: reply_history_loop.simps [of ch b 2 1])
  then show ?thesis
    using assms(1) by (simp add: reply_history_iter_def reply_history_loop.simps [of ch a 2 0])
qed

lemma example_next_message:
  "next_message example_channel M5 = Some M4"
  "next_message example_channel M4 = Some M3"
  "next_message example_channel M3 = None"
  by (simp_all add: next_message_def M5_def M4_def M3_def example_channel_def)

lemma example_reply_history: "reply_history_iter example_channel M5 5 = [M4, M3]"
proof -
  have "reply_history_loop example_channel M3 5 2 = []"
    by (simp add: reply_history_loop.simps [of example_channel M3 5 2] example_next_message)
  then have "reply_history_loop example_channel M4 5 1 = [M3]"
    by (simp add: reply_history_loop.simps [of example_channel M4 5 1] example_next_message)
  then show ?thesis
    by (simp add: reply_history_iter_def reply_history_loop.simps [of example_channel M5 5 0]
        example_next_message)
qed

text \<open>
  C3. The walk is total and returns a list, so no stopping condition is an error. It yields
  at most \<open>limit\<close> messages (none when \<open>limit\<close> is negative). When, at a position \<open>k\<close>
  below the limit, the current message (the start message or the \<open>k\<close>-th one yielded) is
  not a reply, has no usable reference, or cannot be resolved, the walk ends right there:
  it yields exactly \<open>k\<close> messages, fewer than \<open>limit\<close>. Conversely a walk that yields
  fewer than \<open>limit\<close> messages ended for one of these reasons.
\<close>

theorem reply_history_bounded:
  "int (length (reply_history_iter ch m limit)) \<le> max 0 limit \<and>
   (\<forall>k. int k < limit \<and> k \<le> length (reply_history_iter ch m limit) \<and>
        walk_stops ch ((m # reply_history_iter ch m limit) ! k) \<longrightarrow>
        length (reply_history_iter ch m limit) = k \<and>
        int (length (reply_history_iter ch m limit)) < limit) \<and>
   (int (length (reply_history_iter ch m limit)) < limit \<longrightarrow>
      walk_stops ch (last (m # reply_history_iter ch m limit)))"
proof (intro conjI allI impI)
  show "int (length (reply_history_iter ch m limit)) \<le> max 0 limit"
    using length_reply_history_loop [of ch m limit 0] by (simp add: reply_history_iter_def)
next
  fix k
  assume a: "int k < limit \<and> k \<le> length (reply_history_iter ch m limit) \<and>
        walk_stops ch ((m # reply_history_iter ch m limit) ! k)"
  then show "length (reply_history_iter ch m limit) = k"
    using reply_history_loop_stops [of k ch m limit 0]
    by (simp add: reply_history_iter_def walk_stops_iff)
  with a show "int (length (reply_history_iter ch m limit)) < limit" by simp
next
  assume "int (length (reply_history_iter ch m limit)) < limit"
  then show "walk_stops ch (last (m # reply_history_iter ch m limit))"
    using reply_history_loop_short [of ch m limit 0]
    by (simp add: reply_history_iter_def walk_stops_iff)
qed

theorem reply_history_bounded_witness:
  "int 2 < 5 \<and> 2 \<le> length (reply_history_iter example_channel M5 5) \<and>
   walk_stops example_channel ((M5 # reply_history_iter example_channel M5 5) ! 2) \<and>
   length (reply_history_iter example_channel M5 5) = 2 \<and>
   int (length (reply_history_iter example_channel M5 5)) < 5 \<and>
   walk_stops example_channel (last (M5 # reply_history_iter example_channel M5 5))"
proof -
  have h: "int 2 < 5 \<and> 2 \<le> length (reply_history_iter example_channel M5 5) \<and>
      walk_stops example_channel ((M5 # reply_history_iter example_channel M5 5) ! 2)"
    by (simp add: example_reply_history walk_stops_iff example_next_message)
  have b: "length (reply_history_iter example_channel M5 5) = 2 \<and>
      int (length (reply_history_iter example_channel M5 5)) < 5"
    using reply_history_bounded [of example_channel M5 5] h by blast
  then have "walk_stops example_channel (last (M5 # reply_history_iter example_channel M5 5))"
    using reply_history_bounded [of example_channel M5 5] by blast
  with h b show ?thesis by blast
qed

text \<open>
  C4. The scenario of the specification, for any five messages: with a reply limit of 2,
  a trigger \<open>m5\<close> that replies to \<open>m4\<close>, which replies to \<open>m3\<close>, which is no reply, a
  history window \<open>[m1, m2, m3]\<close>, creation times increasing from \<open>m1\<close> to \<open>m5\<close> and five
  different ids, the assembled list is \<open>[m1, m2, m3, m4, m5]\<close>.
\<close>

theorem scenario_reply_chain_and_window:
  assumes "next_message ch m5 = Some m4" and "next_message ch m4 = Some m3"
    and "not_a_reply m3"
    and "created_at m1 < created_at m2" and "created_at m2 < created_at m3"
    and "created_at m3 < created_at m4" and "created_at m4 < created_at m5"
    and "distinct (map msg_id [m1, m2, m3, m4, m5])"
  shows "message_context ch [m1, m2, m3] 2 m5 = [m1, m2, m3, m4, m5]"
proof -
  have r: "reply_history_iter ch m5 2 = [m4, m3]"
    using assms(1,2) by (rule reply_history_two)
  have d: "dict_by_id [m4, m3, m1, m2, m3, m5] =
           [(msg_id m4, m4), (msg_id m3, m3), (msg_id m1, m1), (msg_id m2, m2), (msg_id m5, m5)]"
    using assms(8) by (auto simp: dict_by_id_def)
  show ?thesis
    using assms(4-7) by (simp add: message_context_def assemble_def r d dict_values_def)
qed

theorem scenario_reply_chain_and_window_witness:
  "message_context example_channel [M1, M2, M3] 2 M5 = [M1, M2, M3, M4, M5] \<and>
   map msg_id (message_context example_channel [M1, M2, M3] 2 M5) = [1, 2, 3, 4, 5]"
proof -
  have "message_context example_channel [M1, M2, M3] 2 M5 = [M1, M2, M3, M4, M5]"
  proof (rule scenario_reply_chain_and_window)
    show "next_message example_channel M5 = Some M4" by (rule example_next_message)
    show "next_message example_channel M4 = Some M3" by (rule example_next_message)
    show "not_a_reply M3" by (simp add: not_a_reply_def M3_def)
    show "created_at M1 < created_at M2" by (simp add: M1_def M2_def)
    show "created_at M2 < created_at M3" by (simp add: M2_def M3_def)
    show "created_at M3 < created_at M4" by (simp add: M3_def M4_def)
    show "created_at M4 < created_at M5" by (simp add: M4_def M5_def)
    show "distinct (map msg_id [M1, M2, M3, M4, M5])"
      by (simp add: M1_def M2_def M3_def M4_def M5_def)
  qed
  then show ?thesis by (simp add: M1_def M2_def M3_def M4_def M5_def)
qed

section \<open>Properties of the delivery\<close>

text \<open>
  C8, for the texts that are not empty. Which way such a response text goes depends on
  its length alone, with the threshold at 2000: the bot replies with the text itself
  exactly when the length is at most 2000, and with the text attached as the file
  \<^verbatim>\<open>response.txt\<close> exactly when the length exceeds 2000. A text of 2000 characters goes
  inline, one of 2001 characters as a file.
\<close>

theorem deliver_threshold:
  assumes "text \<noteq> []"
  shows "(deliver (Some text) = Reply text \<longleftrightarrow> length text \<le> 2000) \<and>
         (deliver (Some text) =
            ReplyWithFile ''Response was too long, uploaded as file:'' ''response.txt'' text
          \<longleftrightarrow> length text > 2000) \<and>
         deliver (Some (replicate 2000 c)) = Reply (replicate 2000 c) \<and>
         deliver (Some (replicate 2001 c)) =
           ReplyWithFile ''Response was too long, uploaded as file:'' ''response.txt''
             (replicate 2001 c)"
  using assms by (auto simp: deliver_def MAX_LENGTH_def)

theorem deliver_threshold_witness:
  "replicate 2000 CHR ''a'' \<noteq> [] \<and> length (replicate 2000 CHR ''a'') \<le> 2000 \<and>
   deliver (Some (replicate 2000 CHR ''a'')) = Reply (replicate 2000 CHR ''a'') \<and>
   replicate 2001 CHR ''a'' \<noteq> [] \<and> length (replicate 2001 CHR ''a'') > 2000 \<and>
   deliver (Some (replicate 2001 CHR ''a'')) =
     ReplyWithFile ''Response was too long, uploaded as file:'' ''response.txt''
       (replicate 2001 CHR ''a'')"
proof -
  have a: "replicate 2000 CHR ''a'' \<noteq> []" and b: "replicate 2001 CHR ''a'' \<noteq> []"
    by simp_all
  from deliver_threshold [OF a, of "CHR ''a''"] deliver_threshold [OF b, of "CHR ''a''"] a b
  show ?thesis by simp
qed

text \<open>
  The empty text has length 0, which is at most 2000, and is not delivered inline: the
  reply carries the fixed notice, not the text (line 142 tests the text for truth before
  line 143 tests its length).
\<close>

theorem deliver_empty_text_counterexample:
  "length ([] :: string) \<le> 2000 \<and> deliver (Some []) \<noteq> Reply [] \<and>
   deliver (Some []) = Reply ''No response generated.''"
  by (simp add: deliver_def)

text \<open>
  C10. A response text that is missing (\<open>None\<close>) or empty is not delivered: the bot replies
  with the fixed message. Only a non-empty text takes the inline or file branch, and what
  is delivered then is that text.
\<close>

theorem deliver_no_response:
  "deliver None = Reply ''No response generated.'' \<and>
   deliver (Some []) = Reply ''No response generated.'' \<and>
   (text \<noteq> [] \<longrightarrow>
      deliver (Some text) =
        (if length text \<le> MAX_LENGTH then Reply text
         else ReplyWithFile ''Response was too long, uploaded as file:'' ''response.txt'' text))"
  by (simp add: deliver_def)

theorem deliver_no_response_witness:
  "''ok'' \<noteq> [] \<and> deliver (Some ''ok'') = Reply ''ok'' \<and>
   deliver (response_text_of (Inr None)) = Reply ''No response generated.'' \<and>
   deliver (response_text_of (Inr (Some []))) = Reply ''No response generated.''"
  using deliver_no_response [of "''ok''"]
  by (simp add: MAX_LENGTH_def response_text_of_def)

section \<open>Properties of the settings store\<close>

subsection \<open>The constructor\<close>

lemma setattr_new_object:
  "key \<in> set field_names \<Longrightarrow> on_change obj = PNone \<Longrightarrow> heap st = h @ [obj] \<Longrightarrow>
   \<exists>obj'. object_setattr obj key v = Inr obj' \<and>
     GuildSettings_setattr st (length h) key v = Return () (st\<lparr>heap := h @ [obj']\<rparr>) \<and>
     (key \<noteq> ''on_change'' \<longrightarrow> on_change obj' = PNone)"
  by (auto simp: GuildSettings_setattr_def object_setattr_def field_names_def callable_def)

lemma assign_all_fields:
  "assign_fields (st\<lparr>heap := h @ [unset_object]\<rparr>) (length h)
     [(''guild_id'', v1), (''system_prompt'', v2), (''model'', v3), (''required_role'', v4),
      (''reply_history'', v5), (''message_history'', v6), (''on_change'', v7)] =
   Return () (st\<lparr>heap := h @ [\<lparr>guild_id = v1, system_prompt = v2, model = v3,
      required_role = v4, reply_history = v5, message_history = v6, on_change = v7\<rparr>]\<rparr>)"
  by (simp add: assign_fields_def GuildSettings_setattr_def object_setattr_def callable_def
      unset_object_def)

lemma GuildSettings_init_eq:
  "GuildSettings_init st kwargs =
     (if list_all (\<lambda>k. k \<in> set field_names) (map fst kwargs) \<and> map_of kwargs ''guild_id'' \<noteq> None
      then Return (length (heap st)) (st\<lparr>heap := heap st @ [constructed kwargs]\<rparr>)
      else Raise TypeError st)"
  by (simp add: GuildSettings_init_def Let_def assign_all_fields constructed_def)

subsection \<open>Integer keys survive the file\<close>


lemma is_digit_facts:
  "is_digit c \<Longrightarrow> \<not> is_space c \<and> c \<noteq> CHR ''_'' \<and> c \<noteq> CHR ''-'' \<and> c \<noteq> CHR ''+''"
  by (auto simp: is_digit_def digit_val_def is_space_def split: if_splits)



lemma length_digits: "n < 10 ^ k \<Longrightarrow> 0 < k \<Longrightarrow> length (digits n) \<le> k"
proof (induction n arbitrary: k rule: digits.induct)
  case (1 n)
  show ?case
  proof (cases "n < 10")
    case True
    with "1.prems" show ?thesis by (simp add: digits.simps [of n])
  next
    case False
    from "1.prems" obtain j where k: "k = Suc j" by (cases k) auto
    from False "1.prems" k have j: "0 < j" by (cases j) auto
    from "1.prems" k have "n div 10 < 10 ^ j" by (simp add: less_mult_imp_div_less mult.commute)
    from "1.IH" [OF False this j] False k show ?thesis by (simp add: digits.simps [of n])
  qed
qed

text \<open>The ids of the platform are 64-bit numbers: \<^verbatim>\<open>int.__repr__\<close> always gives them.\<close>

lemma int_repr_snowflake: "\<bar>i\<bar> < 2 ^ 64 \<Longrightarrow> int_repr i = Some (str_int i)"
proof -
  assume "\<bar>i\<bar> < 2 ^ 64"
  then have "nat \<bar>i\<bar> < 10 ^ 20" by simp
  from length_digits [OF this] show ?thesis
    by (simp add: int_repr_def int_max_str_digits_def)
qed


lemma filter_all_digit: "list_all is_digit ds \<Longrightarrow> filter is_digit ds = ds"
  by (simp add: list_all_iff)




lemma parse_nat_too_long:
  "length (filter is_digit s) > int_max_str_digits \<Longrightarrow> parse_nat s = None"
  by (simp add: parse_nat_def)

lemma strip_no_space:
  assumes "s \<noteq> []" "\<not> is_space (hd s)" "\<not> is_space (last s)"
  shows "strip s = s"
proof -
  from assms(1,2) have a: "dropWhile is_space s = s" by (cases s) auto
  from assms(1,3) have "dropWhile is_space (rev s) = rev s"
    by (cases "rev s") (auto simp: hd_rev [symmetric])
  with a show ?thesis by (simp add: strip_def)
qed



text \<open>
  Examples: a separator U+001C before the digits is not stripped; a no-break space, a
  sign, an underscore between digits and a trailing line feed are read; a string of 4301
  digits is not read.
\<close>

lemma py_int_separator: "py_int [CHR 0x1C, CHR ''5''] = None"
  by (simp add: py_int_def strip_def is_space_def parse_nat_def digit_val_def is_digit_def
      int_max_str_digits_def)

lemma py_int_padded:
  "py_int [CHR 0xA0, CHR ''-'', CHR ''5'', CHR ''_'', CHR ''0'', CHR 0x0A] = Some (- 50)"
  by (simp add: py_int_def strip_def is_space_def parse_nat_def digit_val_def is_digit_def
      int_max_str_digits_def)

lemma py_int_too_long: "py_int (replicate 4301 (CHR ''1'')) = None"
proof -
  have d: "is_digit (CHR ''1'')" by (simp add: is_digit_def digit_val_def)
  have "Suc 4300 = 4301" by simp
  then have c: "replicate 4301 (CHR ''1'') = CHR ''1'' # replicate 4300 (CHR ''1'')"
    by (simp only: replicate_Suc [symmetric])
  have "strip (replicate 4301 (CHR ''1'')) = replicate 4301 (CHR ''1'')"
    using d is_digit_facts [of "CHR ''1''"] by (intro strip_no_space) simp_all
  moreover have "parse_nat (replicate 4301 (CHR ''1'')) = None"
    by (rule parse_nat_too_long) (simp add: d int_max_str_digits_def)
  ultimately show ?thesis
    unfolding py_int_def c by simp
qed

lemma py_int_1: "py_int ''1'' = Some 1"
  by (simp add: py_int_def strip_def is_space_def parse_nat_def digit_val_def is_digit_def
      int_max_str_digits_def)

lemma digits_small: "n < 10 \<Longrightarrow> digits n = [digit_char n]"
  by (subst digits.simps) simp

lemma str_int_small: "str_int 1 = ''1''" "str_int 2 = ''2''"
  by (simp_all add: str_int_def digits_small digit_char_def)

subsection \<open>Loading what was saved\<close>

lemma asdict_keys: "set (map fst (asdict s)) \<subseteq> set data_fields"
  by (auto simp: asdict_def dict_factory_def excluded_def data_fields_def)




lemma asdict_serializable:
  "persistable (gid, s) \<Longrightarrow> list_all (\<lambda>(k, v). json_serializable v) (asdict s)"
  by (simp add: persistable_def asdict_def dict_factory_def excluded_def)

lemma set_dict_setitem:
  "(k', v') \<in> set (dict_setitem k v d) \<Longrightarrow> (k', v') = (k, v) \<or> (k', v') \<in> set d"
  by (induction k v d rule: dict_setitem.induct) (auto split: if_splits)


lemma valid_dict_setitem_new:
  "list_all (\<lambda>a. a < length h) (map snd d) \<Longrightarrow>
   list_all (\<lambda>a. a < Suc (length h)) (map snd (dict_setitem k (length h) d))"
proof -
  assume v: "list_all (\<lambda>a. a < length h) (map snd d)"
  have "a < Suc (length h)" if "(k', a) \<in> set (dict_setitem k (length h) d)" for k' a
    using set_dict_setitem [OF that] v by (auto simp: list_all_iff)
  then show ?thesis by (auto simp: list_all_iff)
qed




lemma save_persistable:
  assumes "writable st" "list_all persistable (settings_items st)"
  shows "save st = st\<lparr>saves := saves st + 1,
           backing_file := Json (PDict (map encode_item (settings_items st)))\<rparr>"
proof -
  have one: "list_all (\<lambda>(k, v). json_serializable v) (asdict (heap st ! a))"
    if "(gid, a) \<in> set (guild_settings st)" for gid a
  proof -
    from that have "(gid, heap st ! a) \<in> set (settings_items st)"
      by (force simp: settings_items_def)
    with assms(2) have "persistable (gid, heap st ! a)"
      by (force simp: list_all_iff)
    then show ?thesis by (rule asdict_serializable)
  qed
  have key: "int_repr gid \<noteq> None" if "(gid, a) \<in> set (guild_settings st)" for gid a
  proof -
    from that have "(gid, heap st ! a) \<in> set (settings_items st)"
      by (force simp: settings_items_def)
    with assms(2) have "persistable (gid, heap st ! a)"
      by (force simp: list_all_iff)
    then show ?thesis by (simp add: persistable_def)
  qed
  have ok: "list_all (\<lambda>(gid, d). int_repr gid \<noteq> None \<and>
                list_all (\<lambda>(k, v). json_serializable v) d)
              (serializable_of (st\<lparr>saves := saves st + 1\<rparr>))"
    unfolding serializable_of_def list_all_iff [of _ "map _ _"]
    using one key by auto
  have enc: "map (\<lambda>(gid, d). (str_int gid, PDict d)) (serializable_of (st\<lparr>saves := saves st + 1\<rparr>))
             = map encode_item (settings_items st)"
    by (simp add: serializable_of_def settings_items_def encode_item_def case_prod_beta)
  show ?thesis
    using assms(1) ok enc by (simp add: save_def json_dump_def Let_def)
qed




lemma load_items_frame:
  "saves (final_state (load_items st items)) = saves st \<and>
   backing_file (final_state (load_items st items)) = backing_file st \<and>
   writable (final_state (load_items st items)) = writable st"
proof (induction st items rule: load_items.induct)
  case (1 st)
  then show ?case by (simp add: final_state_def)
next
  case (2 st gid_str data rest)
  show ?case
  proof (cases data)
    case (PDict kwargs)
    show ?thesis
    proof (cases "''on_change'' \<in> set (map fst kwargs)")
      case True
      with PDict show ?thesis by (simp add: final_state_def)
    next
      case False
      show ?thesis
      proof (cases "GuildSettings_init st (kwargs @ [(''on_change'', PFunc)])")
        case (Raise e s)
        then have "s = st" by (simp add: GuildSettings_init_eq split: if_splits)
        with Raise PDict False show ?thesis by (simp add: final_state_def)
      next
        case (Return a s)
        then have s: "saves s = saves st \<and> backing_file s = backing_file st \<and> writable s = writable st"
          by (auto simp: GuildSettings_init_eq split: if_splits)
        show ?thesis
        proof (cases "py_int gid_str")
          case None
          with Return PDict False s show ?thesis by (simp add: final_state_def)
        next
          case (Some gid)
          from "2.IH" [OF PDict False Return Some] Return PDict False Some s
          show ?thesis by (simp add: setitem_def)
        qed
      qed
    qed
  qed (simp_all add: final_state_def)
qed

lemma load_frame:
  "saves (final_state (load st)) = saves st \<and>
   backing_file (final_state (load st)) = backing_file st \<and>
   writable (final_state (load st)) = writable st"
proof (cases "backing_file st")
  case (Json data)
  show ?thesis
  proof (cases data)
    case (PDict items)
    with Json load_items_frame [of st items] show ?thesis
      by (cases "load_items st items") (simp_all add: load_def final_state_def)
  qed (simp_all add: load_def Json final_state_def)
qed (simp_all add: load_def final_state_def)

lemma load_items_rejected:
  "\<not> list_all entry_accepted items \<Longrightarrow> \<exists>e s. load_items st items = Raise e s"
proof (induction st items rule: load_items.induct)
  case (1 st)
  then show ?case by simp
next
  case (2 st gid_str data rest)
  show ?case
  proof (cases data)
    case (PDict kwargs)
    show ?thesis
    proof (cases "''on_change'' \<in> set (map fst kwargs)")
      case True
      with PDict show ?thesis by simp
    next
      case False
      show ?thesis
      proof (cases "GuildSettings_init st (kwargs @ [(''on_change'', PFunc)])")
        case (Raise e s)
        with PDict False show ?thesis by simp
      next
        case (Return a s)
        then have b: "list_all (\<lambda>k. k \<in> set field_names) (map fst kwargs)"
          "map_of kwargs ''guild_id'' \<noteq> None"
          by (auto simp: GuildSettings_init_eq map_add_def split: if_splits option.splits)
        show ?thesis
        proof (cases "py_int gid_str")
          case None
          with Return PDict False show ?thesis by simp
        next
          case (Some gid)
          have "k \<in> set data_fields" if "k \<in> set (map fst kwargs)" for k
          proof -
            from that b(1) have "k \<in> set field_names" unfolding list_all_iff by blast
            moreover from that False have "k \<noteq> ''on_change''" by blast
            ultimately show ?thesis by (auto simp: field_names_def data_fields_def)
          qed
          then have "list_all (\<lambda>k. k \<in> set data_fields) (map fst kwargs)"
            unfolding list_all_iff by blast
          with b(2) Some PDict have "entry_accepted (gid_str, data)"
            by (simp add: entry_accepted_def)
          with "2.prems" have "\<not> list_all entry_accepted rest" by simp
          from "2.IH" [OF PDict False Return Some this] Return PDict False Some
          show ?thesis by simp
        qed
      qed
    qed
  qed simp_all
qed

lemma load_rejected:
  "rejected (backing_file st) \<Longrightarrow> \<exists>s. load st = Return () s \<and> guild_settings s = []"
proof (cases "backing_file st")
  case Inaccessible
  assume "rejected (backing_file st)"
  with Inaccessible show ?thesis by (simp add: rejected_def)
next
  case Missing
  assume "rejected (backing_file st)"
  with Missing show ?thesis by (simp add: rejected_def)
next
  case Unreadable
  then show ?thesis by (simp add: load_def)
next
  case (Json data)
  assume r: "rejected (backing_file st)"
  show ?thesis
  proof (cases data)
    case (PDict items)
    with r Json have "\<not> list_all entry_accepted items" by (simp add: rejected_def)
    from load_items_rejected [OF this, of st] obtain e s where "load_items st items = Raise e s"
      by blast
    with Json PDict show ?thesis by (simp add: load_def)
  qed (simp_all add: load_def Json)
qed

lemma getitem_new:
  "map_of (guild_settings st) gid = None \<Longrightarrow>
   getitem st gid = Return (length (heap st))
     (st\<lparr>heap := heap st @ [default_settings gid],
         guild_settings := dict_setitem gid (length (heap st)) (guild_settings st)\<rparr>)"
  by (simp add: getitem_def GuildSettings_init_eq field_names_def constructed_def
      keyword_argument_def default_settings_def setitem_def)

subsection \<open>The invariant of the reachable states\<close>

lemma constructed_hook:
  "''on_change'' \<notin> set (map fst kwargs) \<Longrightarrow>
   on_change (constructed (kwargs @ [(''on_change'', PFunc)])) = PFunc"
proof -
  assume "''on_change'' \<notin> set (map fst kwargs)"
  then have "map_of kwargs ''on_change'' = None" by (simp add: map_of_eq_None_iff)
  then show ?thesis by (simp add: constructed_def keyword_argument_def map_add_def)
qed

lemma map_of_dict_setitem: "map_of (dict_setitem k v d) k = Some v"
  by (induction k v d rule: dict_setitem.induct) auto

lemma valid_setitem_new:
  "valid_addresses st \<Longrightarrow>
   valid_addresses (setitem (st\<lparr>heap := heap st @ [obj]\<rparr>) gid (length (heap st)))"
  using valid_dict_setitem_new [of "heap st" "guild_settings st" gid]
  by (simp add: valid_addresses_def setitem_def)

lemma invariant_setitem_new:
  assumes "store_invariant st" "on_change obj = PFunc"
  shows "store_invariant (setitem (st\<lparr>heap := heap st @ [obj]\<rparr>) gid (length (heap st)))"
proof -
  have "distinct (map fst (dict_setitem gid (length (heap st)) (guild_settings st)))"
    using assms(1) by (simp add: store_invariant_def distinct_dict_setitem)
  moreover have "hooked (setitem (st\<lparr>heap := heap st @ [obj]\<rparr>) gid (length (heap st)))"
    using assms by (simp add: store_invariant_def hooked_def setitem_def)
  ultimately show ?thesis
    using valid_setitem_new [of st obj gid] assms(1)
    by (simp add: store_invariant_def setitem_def)
qed

lemma invariant_clear:
  "hooked st \<Longrightarrow> store_invariant (st\<lparr>guild_settings := []\<rparr>)"
  by (simp add: store_invariant_def hooked_def valid_addresses_def)

lemma load_items_invariant:
  "store_invariant st \<Longrightarrow>
   (case load_items st items of
      Return u s \<Rightarrow> store_invariant s
    | Raise e s \<Rightarrow> hooked s)"
proof (induction st items rule: load_items.induct)
  case (1 st)
  then show ?case by simp
next
  case (2 st gid_str data rest)
  have h: "hooked st" using "2.prems" by (simp add: store_invariant_def)
  show ?case
  proof (cases data)
    case (PDict kwargs)
    show ?thesis
    proof (cases "''on_change'' \<in> set (map fst kwargs)")
      case True
      with PDict h show ?thesis by simp
    next
      case False
      let ?obj = "constructed (kwargs @ [(''on_change'', PFunc)])"
      show ?thesis
      proof (cases "GuildSettings_init st (kwargs @ [(''on_change'', PFunc)])")
        case (Raise e s)
        then have "s = st" by (simp add: GuildSettings_init_eq split: if_splits)
        with Raise PDict False h show ?thesis by simp
      next
        case (Return a s)
        then have s: "a = length (heap st)" "s = st\<lparr>heap := heap st @ [?obj]\<rparr>"
          by (auto simp: GuildSettings_init_eq split: if_splits)
        have o: "on_change ?obj = PFunc" using False by (rule constructed_hook)
        show ?thesis
        proof (cases "py_int gid_str")
          case None
          with Return PDict False s h o show ?thesis by (simp add: hooked_def)
        next
          case (Some gid)
          have "store_invariant (setitem s gid a)"
            unfolding s using "2.prems" o by (rule invariant_setitem_new)
          from "2.IH" [OF PDict False Return Some this] Return PDict False Some
          show ?thesis by simp
        qed
      qed
    qed
  qed (use h in simp_all)
qed

lemma load_invariant: "store_invariant st \<Longrightarrow> store_invariant (final_state (load st))"
proof (cases "backing_file st")
  case (Json data)
  assume i: "store_invariant st"
  then have h: "hooked st" by (simp add: store_invariant_def)
  show ?thesis
  proof (cases data)
    case (PDict items)
    with Json load_items_invariant [OF i, of items] show ?thesis
      by (cases "load_items st items") (simp_all add: load_def invariant_clear final_state_def)
  qed (use h in \<open>simp_all add: load_def Json invariant_clear final_state_def\<close>)
next
  case Unreadable
  assume "store_invariant st"
  then have "hooked st" by (simp add: store_invariant_def)
  then have "store_invariant (st\<lparr>guild_settings := []\<rparr>)" by (rule invariant_clear)
  with Unreadable show ?thesis by (simp add: load_def final_state_def)
qed (simp_all add: load_def final_state_def)

lemma getitem_result:
  "store_invariant st \<Longrightarrow>
   \<exists>a st'. getitem st gid = Return a st' \<and> store_invariant st' \<and> a < length (heap st') \<and>
     map_of (guild_settings st') gid = Some a \<and>
     saves st' = saves st \<and> backing_file st' = backing_file st \<and> writable st' = writable st"
proof (cases "map_of (guild_settings st) gid")
  case None
  assume i: "store_invariant st"
  have "store_invariant (setitem (st\<lparr>heap := heap st @ [default_settings gid]\<rparr>) gid (length (heap st)))"
    using i by (rule invariant_setitem_new) (simp add: default_settings_def)
  moreover have "map_of (dict_setitem gid (length (heap st)) (guild_settings st)) gid
      = Some (length (heap st))"
    by (rule map_of_dict_setitem)
  ultimately show ?thesis
    using getitem_new [OF None] by (simp add: setitem_def)
next
  case (Some a)
  assume i: "store_invariant st"
  from Some have "(gid, a) \<in> set (guild_settings st)" by (rule map_of_SomeD)
  with i have "a < length (heap st)"
    by (force simp: store_invariant_def valid_addresses_def list_all_iff)
  with Some i show ?thesis by (simp add: getitem_def)
qed

lemma setattr_data_field:
  assumes "key \<in> set data_fields"
  shows "\<exists>obj. object_setattr (heap st ! a) key v = Inr obj \<and>
           on_change obj = on_change (heap st ! a) \<and>
           GuildSettings_setattr st a key v =
             Return () (if callable (on_change (heap st ! a))
                        then save (st\<lparr>heap := (heap st)[a := obj]\<rparr>)
                        else st\<lparr>heap := (heap st)[a := obj]\<rparr>)"
  using assms
  by (auto simp: data_fields_def GuildSettings_setattr_def object_setattr_def Let_def)

lemma save_frame:
  "heap (save st) = heap st \<and> guild_settings (save st) = guild_settings st \<and>
   saves (save st) = saves st + 1 \<and> writable (save st) = writable st"
  by (simp add: save_def Let_def split: option.splits)

lemma save_invariant: "store_invariant st \<Longrightarrow> store_invariant (save st)"
  using save_frame [of st] by (simp add: store_invariant_def valid_addresses_def hooked_def)

lemma setattr_invariant:
  assumes "store_invariant st" "a < length (heap st)" "key \<in> set data_fields"
    "GuildSettings_setattr st a key v = Return () st'"
  shows "store_invariant st'"
proof -
  from setattr_data_field [OF assms(3), of st a v] obtain obj where
    o: "on_change obj = on_change (heap st ! a)"
      "GuildSettings_setattr st a key v =
         Return () (if callable (on_change (heap st ! a))
                    then save (st\<lparr>heap := (heap st)[a := obj]\<rparr>)
                    else st\<lparr>heap := (heap st)[a := obj]\<rparr>)"
    by blast
  have "on_change (heap st ! a) = PFunc"
    using assms(1,2) by (simp add: store_invariant_def hooked_def list_all_length)
  with o(1) have "list_all (\<lambda>obj. on_change obj = PFunc) ((heap st)[a := obj])"
    using assms(1) by (auto simp: store_invariant_def hooked_def list_all_iff dest: set_update_subset_insert [THEN subsetD])
  then have "store_invariant (st\<lparr>heap := (heap st)[a := obj]\<rparr>)"
    using assms(1) by (simp add: store_invariant_def hooked_def valid_addresses_def)
  with o(2) assms(4) show ?thesis by (auto simp: save_invariant split: if_splits)
qed

lemma reachable_invariant: "reachable st \<Longrightarrow> store_invariant st"
proof (induction rule: reachable.induct)
  case (start f w st)
  have "store_invariant ((fresh_state f w)\<lparr>guild_settings := []\<rparr>)"
    by (simp add: fresh_state_def store_invariant_def valid_addresses_def hooked_def)
  then have "store_invariant (final_state (SettingsManager_init (fresh_state f w)))"
    unfolding SettingsManager_init_def by (rule load_invariant)
  with start show ?case by (simp add: final_state_def)
next
  case (lookup st gid a st')
  with getitem_result [of st gid] show ?case by auto
next
  case (assign st a key v st')
  then show ?case using setattr_invariant by blast
next
  case (outside st f w)
  then show ?case by (simp add: store_invariant_def valid_addresses_def hooked_def)
qed

subsection \<open>Assignments, rejected files and construction\<close>

lemma example_start:
  "SettingsManager_init (fresh_state Missing True) = Return () (fresh_state Missing True)"
  by (simp add: SettingsManager_init_def load_def fresh_state_def)

lemma example_lookup_1: "getitem (fresh_state Missing True) 1 = Return 0 one_guild"
  by (simp add: getitem_new fresh_state_def one_guild_def)

lemma example_lookup_2: "getitem one_guild 2 = Return 1 two_guilds"
  by (simp add: getitem_new one_guild_def two_guilds_def)

lemma reachable_one_guild: "reachable one_guild"
  using reachable.lookup [OF reachable.start [OF example_start] example_lookup_1] .

text \<open>
  C5. In every reachable state, an assignment to a data field of a settings object that a
  lookup returned sets the field and then runs \<^verbatim>\<open>save()\<close> on the manager, once: the
  state after the assignment is the state after \<^verbatim>\<open>save\<close> with the object updated, the
  count of saves has grown by one, the serialized dict has an entry for every guild id of
  the store, and, when the file can be written and the items are persistable, the file
  holds the items of the entire store.
\<close>

theorem assignment_saves_entire_store:
  assumes "reachable st0" and "getitem st0 gid = Return a st" and "key \<in> set data_fields"
  shows "\<exists>obj. object_setattr (heap st ! a) key v = Inr obj \<and>
           GuildSettings_setattr st a key v =
             Return () (save (st\<lparr>heap := (heap st)[a := obj]\<rparr>)) \<and>
           saves (final_state (GuildSettings_setattr st a key v)) = saves st + 1 \<and>
           map fst (serializable_of (final_state (GuildSettings_setattr st a key v))) =
             map fst (guild_settings st) \<and>
           (writable st \<and>
            list_all persistable
              (settings_items (final_state (GuildSettings_setattr st a key v))) \<longrightarrow>
            backing_file (final_state (GuildSettings_setattr st a key v)) =
              Json (PDict (map encode_item
                (settings_items (final_state (GuildSettings_setattr st a key v))))))"
proof -
  have i0: "store_invariant st0" using assms(1) by (rule reachable_invariant)
  from getitem_result [OF i0, of gid] assms(2)
  have i: "store_invariant st" and a: "a < length (heap st)" by auto
  have h: "on_change (heap st ! a) = PFunc"
    using i a by (simp add: store_invariant_def hooked_def list_all_length)
  from setattr_data_field [OF assms(3), of st a v] obtain obj where
    o: "object_setattr (heap st ! a) key v = Inr obj"
      "GuildSettings_setattr st a key v =
         Return () (if callable (on_change (heap st ! a))
                    then save (st\<lparr>heap := (heap st)[a := obj]\<rparr>)
                    else st\<lparr>heap := (heap st)[a := obj]\<rparr>)"
    by blast
  let ?st1 = "st\<lparr>heap := (heap st)[a := obj]\<rparr>"
  have r: "GuildSettings_setattr st a key v = Return () (save ?st1)"
    using o(2) h by (simp add: callable_def)
  have f: "final_state (GuildSettings_setattr st a key v) = save ?st1"
    by (simp add: r final_state_def)
  have s1: "saves (save ?st1) = saves st + 1"
    using save_frame [of ?st1] by simp
  have s2: "map fst (serializable_of (save ?st1)) = map fst (guild_settings st)"
    using save_frame [of ?st1] by (simp add: serializable_of_def case_prod_beta comp_def)
  have it: "settings_items (save ?st1) = settings_items ?st1"
    using save_frame [of ?st1] by (simp add: settings_items_def)
  have s3: "backing_file (save ?st1) = Json (PDict (map encode_item (settings_items (save ?st1))))"
    if "writable st" "list_all persistable (settings_items (save ?st1))"
  proof -
    from that have "writable ?st1" "list_all persistable (settings_items ?st1)"
      by (simp_all add: it)
    from save_persistable [OF this]
    have "backing_file (save ?st1) = Json (PDict (map encode_item (settings_items ?st1)))"
      by simp
    then show ?thesis by (simp only: it)
  qed
  show ?thesis
    using o(1) r s1 s2 s3 unfolding f by blast
qed

theorem assignment_saves_entire_store_witness:
  "reachable one_guild \<and> getitem one_guild 2 = Return 1 two_guilds \<and>
   ''model'' \<in> set data_fields \<and>
   saves (final_state (GuildSettings_setattr two_guilds 1 ''model'' (PStr ''phi''))) = 1 \<and>
   map fst (serializable_of
     (final_state (GuildSettings_setattr two_guilds 1 ''model'' (PStr ''phi'')))) = [1, 2] \<and>
   backing_file (final_state (GuildSettings_setattr two_guilds 1 ''model'' (PStr ''phi''))) =
     Json (PDict
       [(''1'', PDict [(''guild_id'', PInt 1),
                       (''system_prompt'', PStr ''You are a helpful assistant.''),
                       (''model'', PStr ''llama3''), (''reply_history'', PInt 10),
                       (''message_history'', PInt 10)]),
        (''2'', PDict [(''guild_id'', PInt 2),
                       (''system_prompt'', PStr ''You are a helpful assistant.''),
                       (''model'', PStr ''phi''), (''reply_history'', PInt 10),
                       (''message_history'', PInt 10)])])"
proof -
  have k: "''model'' \<in> set data_fields" by (simp add: data_fields_def)
  from assignment_saves_entire_store [OF reachable_one_guild example_lookup_2 k, of "PStr ''phi''"]
  obtain obj where
    o: "object_setattr (heap two_guilds ! 1) ''model'' (PStr ''phi'') = Inr obj"
      "GuildSettings_setattr two_guilds 1 ''model'' (PStr ''phi'') =
         Return () (save (two_guilds\<lparr>heap := (heap two_guilds)[1 := obj]\<rparr>))"
      "saves (final_state (GuildSettings_setattr two_guilds 1 ''model'' (PStr ''phi''))) =
         saves two_guilds + 1"
      "map fst (serializable_of
         (final_state (GuildSettings_setattr two_guilds 1 ''model'' (PStr ''phi'')))) =
         map fst (guild_settings two_guilds)"
      "writable two_guilds \<and>
       list_all persistable (settings_items
         (final_state (GuildSettings_setattr two_guilds 1 ''model'' (PStr ''phi'')))) \<longrightarrow>
       backing_file (final_state (GuildSettings_setattr two_guilds 1 ''model'' (PStr ''phi''))) =
         Json (PDict (map encode_item (settings_items
           (final_state (GuildSettings_setattr two_guilds 1 ''model'' (PStr ''phi''))))))"
    by blast
  have obj: "obj = (default_settings 2)\<lparr>model := PStr ''phi''\<rparr>"
    using o(1) by (simp add: two_guilds_def object_setattr_def)
  let ?st1 = "two_guilds\<lparr>heap := (heap two_guilds)[1 := obj]\<rparr>"
  have f: "final_state (GuildSettings_setattr two_guilds 1 ''model'' (PStr ''phi'')) = save ?st1"
    by (simp only: o(2) final_state_def result.case)
  have "settings_items (save ?st1) = settings_items ?st1"
    using save_frame [of ?st1] by (simp add: settings_items_def)
  also have "\<dots> = [(1, default_settings 1), (2, (default_settings 2)\<lparr>model := PStr ''phi''\<rparr>)]"
    by (simp add: settings_items_def obj two_guilds_def)
  finally have it: "settings_items (final_state (GuildSettings_setattr two_guilds 1 ''model'' (PStr ''phi'')))
      = [(1, default_settings 1), (2, (default_settings 2)\<lparr>model := PStr ''phi''\<rparr>)]"
    by (simp only: f)
  have w: "writable two_guilds" by (simp add: two_guilds_def)
  have "list_all persistable (settings_items
         (final_state (GuildSettings_setattr two_guilds 1 ''model'' (PStr ''phi''))))"
    unfolding it by (simp add: persistable_def default_settings_def int_repr_snowflake)
  with w o(5)
  have "backing_file (final_state (GuildSettings_setattr two_guilds 1 ''model'' (PStr ''phi''))) =
         Json (PDict (map encode_item (settings_items
           (final_state (GuildSettings_setattr two_guilds 1 ''model'' (PStr ''phi''))))))"
    by blast
  then have c3: "backing_file (final_state (GuildSettings_setattr two_guilds 1 ''model'' (PStr ''phi''))) =
     Json (PDict
       [(''1'', PDict [(''guild_id'', PInt 1),
                       (''system_prompt'', PStr ''You are a helpful assistant.''),
                       (''model'', PStr ''llama3''), (''reply_history'', PInt 10),
                       (''message_history'', PInt 10)]),
        (''2'', PDict [(''guild_id'', PInt 2),
                       (''system_prompt'', PStr ''You are a helpful assistant.''),
                       (''model'', PStr ''phi''), (''reply_history'', PInt 10),
                       (''message_history'', PInt 10)])])"
    unfolding it
    by (simp add: encode_item_def str_int_small asdict_def dict_factory_def
        excluded_def default_settings_def)
  have "saves two_guilds = 0" by (simp add: two_guilds_def)
  with o(3) have c1: "saves (final_state (GuildSettings_setattr two_guilds 1 ''model'' (PStr ''phi''))) = 1"
    by simp
  have "map fst (guild_settings two_guilds) = [1, 2]" by (simp add: two_guilds_def)
  with o(4) have c2: "map fst (serializable_of
     (final_state (GuildSettings_setattr two_guilds 1 ''model'' (PStr ''phi'')))) = [1, 2]"
    by simp
  from reachable_one_guild example_lookup_2 k c1 c2 c3 show ?thesis by blast
qed

text \<open>
  The rejected files are exactly the files on which \<^verbatim>\<open>load\<close> runs into an exception
  inside its \<^verbatim>\<open>try\<close>: the files that exist and, when they parse to a dict, make the loop
  raise. When the existence test itself raises, \<^verbatim>\<open>load\<close> raises.
\<close>

lemma load_items_accepted:
  "list_all entry_accepted items \<Longrightarrow> \<exists>s. load_items st items = Return () s"
proof (induction st items rule: load_items.induct)
  case (1 st)
  then show ?case by simp
next
  case (2 st gid_str data rest)
  from "2.prems" have a: "entry_accepted (gid_str, data)" and r: "list_all entry_accepted rest"
    by simp_all
  from a obtain kwargs where d: "data = PDict kwargs"
    by (cases data) (simp_all add: entry_accepted_def)
  from a d have k: "list_all (\<lambda>k. k \<in> set data_fields) (map fst kwargs)"
    and g: "map_of kwargs ''guild_id'' \<noteq> None" and p: "py_int gid_str \<noteq> None"
    by (simp_all add: entry_accepted_def)
  from k have n: "''on_change'' \<notin> set (map fst kwargs)"
    by (auto simp: list_all_iff data_fields_def)
  from k have f: "list_all (\<lambda>k. k \<in> set field_names) (map fst (kwargs @ [(''on_change'', PFunc)]))"
    by (auto simp: list_all_iff data_fields_def field_names_def)
  from g have g': "map_of (kwargs @ [(''on_change'', PFunc)]) ''guild_id'' \<noteq> None"
    by (auto simp: map_add_def split: option.splits)
  let ?s = "st\<lparr>heap := heap st @ [constructed (kwargs @ [(''on_change'', PFunc)])]\<rparr>"
  have i: "GuildSettings_init st (kwargs @ [(''on_change'', PFunc)]) = Return (length (heap st)) ?s"
    using f g' by (simp add: GuildSettings_init_eq)
  from p obtain gid where gid: "py_int gid_str = Some gid" by auto
  from "2.IH" [OF d n i gid r] d n i gid show ?case by simp
qed

lemma rejected_iff_load_raises:
  "rejected (backing_file st) \<longleftrightarrow>
   backing_file st \<noteq> Inaccessible \<and> backing_file st \<noteq> Missing \<and>
   (\<forall>items. backing_file st = Json (PDict items) \<longrightarrow>
      (\<exists>e s. load_items st items = Raise e s))"
proof (cases "backing_file st")
  case (Json data)
  show ?thesis
  proof (cases data)
    case (PDict items)
    show ?thesis
      using Json PDict load_items_accepted [of items st] load_items_rejected [of items st]
      by (auto simp: rejected_def)
  qed (simp_all add: rejected_def Json)
qed (simp_all add: rejected_def)

lemma load_inaccessible: "backing_file st = Inaccessible \<Longrightarrow> load st = Raise OSError st"
  by (simp add: load_def)

text \<open>
  C7, for the files that \<^verbatim>\<open>load()\<close> rejects. For every such file (it exists and does not
  parse, or its top-level value is no object, a key is not read by \<^verbatim>\<open>int\<close>, an entry is
  no object, has an unknown field or lacks \<^verbatim>\<open>guild_id\<close>), \<^verbatim>\<open>load()\<close> returns, no exception
  leaves it, and the store is empty; a lookup of any guild id then returns settings with
  all defaults and stores them as the only item.
\<close>

theorem rejected_file_leaves_store_empty:
  assumes "rejected (backing_file st)"
  shows "\<exists>s. load st = Return () s \<and> guild_settings s = [] \<and>
           (\<exists>a s'. getitem s gid = Return a s' \<and> heap s' ! a = default_settings gid \<and>
              guild_settings s' = [(gid, a)])"
proof -
  from load_rejected [OF assms] obtain s where
    l: "load st = Return () s" and e: "guild_settings s = []" by blast
  from e have "map_of (guild_settings s) gid = None" by simp
  from getitem_new [OF this] l e show ?thesis by simp
qed

theorem rejected_file_leaves_store_empty_witness:
  "rejected (backing_file unreadable_start) \<and>
   rejected (Json (PDict [(''abc'', PDict [(''guild_id'', PInt 1)])])) \<and>
   rejected (Json (PDict [([CHR 0x1C, CHR ''5''], PDict [(''guild_id'', PInt 5)])])) \<and>
   rejected (Json (PDict [(replicate 4301 (CHR ''1''), PDict [(''guild_id'', PInt 1)])])) \<and>
   rejected (Json (PDict [(''1'', PDict [(''model'', PStr ''m'')])])) \<and>
   rejected (Json (PList [])) \<and>
   (\<exists>s. load unreadable_start = Return () s \<and> guild_settings s = [] \<and>
      getitem s 42 =
        Return 0 \<lparr>heap = [default_settings 42], guild_settings = [(42, 0)],
          backing_file = Unreadable, writable = True, saves = 0\<rparr>)"
proof -
  have r: "rejected (backing_file unreadable_start)"
    by (simp add: unreadable_start_def fresh_state_def rejected_def)
  have "py_int ''abc'' = None"
    by (simp add: py_int_def strip_def is_space_def parse_nat_def digit_val_def is_digit_def
        int_max_str_digits_def)
  then have r2: "rejected (Json (PDict [(''abc'', PDict [(''guild_id'', PInt 1)])]))"
    by (simp add: rejected_def entry_accepted_def)
  have r3: "rejected (Json (PDict [(''1'', PDict [(''model'', PStr ''m'')])]))"
    by (simp add: rejected_def entry_accepted_def)
  have r4: "rejected (Json (PList []))" by (simp add: rejected_def)
  have r5: "rejected (Json (PDict [([CHR 0x1C, CHR ''5''], PDict [(''guild_id'', PInt 5)])]))"
    by (simp add: rejected_def entry_accepted_def py_int_separator)
  have r6: "rejected (Json (PDict [(replicate 4301 (CHR ''1''), PDict [(''guild_id'', PInt 1)])]))"
    by (simp add: rejected_def entry_accepted_def py_int_too_long)
  from rejected_file_leaves_store_empty [OF r, of 42] obtain s where
    s: "load unreadable_start = Return () s" "guild_settings s = []" by blast
  have l: "load unreadable_start = Return () unreadable_start"
    by (simp add: unreadable_start_def fresh_state_def load_def)
  with s(1) have u: "s = unreadable_start" by simp
  have "getitem s 42 =
     Return 0 \<lparr>heap = [default_settings 42], guild_settings = [(42, 0)],
       backing_file = Unreadable, writable = True, saves = 0\<rparr>"
    unfolding u by (simp add: getitem_new unreadable_start_def fresh_state_def)
  with r r2 r3 r4 r5 r6 s show ?thesis by blast
qed

text \<open>
  A file that violates the schema and is loaded all the same: the value of
  \<^verbatim>\<open>reply_history\<close> is a string, the dataclass does not check it, and the store holds the
  entry with that string as its limit.
\<close>

theorem wrong_type_file_counterexample:
  "malformed (Json wrong_type_file) \<and>
   load (fresh_state (Json wrong_type_file) True) =
     Return () \<lparr>heap = [(default_settings 1)\<lparr>reply_history := PStr ''ten''\<rparr>],
       guild_settings = [(1, 0)], backing_file = Json wrong_type_file, writable = True,
       saves = 0\<rparr>"
proof -
  have m: "malformed (Json wrong_type_file)"
    by (simp add: malformed_def schema_conforms_def wrong_type_file_def field_conforms_def
        is_limit_def is_int_def)
  have "load (fresh_state (Json wrong_type_file) True) =
        Return () \<lparr>heap = [(default_settings 1)\<lparr>reply_history := PStr ''ten''\<rparr>],
         guild_settings = [(1, 0)], backing_file = Json wrong_type_file, writable = True,
         saves = 0\<rparr>"
    by (simp add: load_def fresh_state_def wrong_type_file_def GuildSettings_init_eq
        field_names_def constructed_def keyword_argument_def py_int_1 setitem_def
        default_settings_def)
  with m show ?thesis by simp
qed

text \<open>
  C9. Constructing a settings object never runs \<^verbatim>\<open>save()\<close>: whatever the keyword
  arguments, the count of saves and the backing file are as before the call, and so they
  are after \<^verbatim>\<open>load()\<close> and after a lookup, also one that creates the settings of an unseen
  guild. The reason is in \<^verbatim>\<open>__setattr__\<close>: an assignment to \<^verbatim>\<open>on_change\<close>, or to any
  field of an object whose \<^verbatim>\<open>on_change\<close> is not callable, saves nothing. An assignment to a
  data field of an object that carries the hook runs \<^verbatim>\<open>save()\<close> once.
\<close>

theorem construction_never_saves:
  "saves (final_state (GuildSettings_init st kwargs)) = saves st \<and>
   backing_file (final_state (GuildSettings_init st kwargs)) = backing_file st \<and>
   saves (final_state (load st)) = saves st \<and>
   backing_file (final_state (load st)) = backing_file st \<and>
   saves (final_state (getitem st gid)) = saves st \<and>
   backing_file (final_state (getitem st gid)) = backing_file st \<and>
   (key = ''on_change'' \<or> \<not> callable (on_change (heap st ! a)) \<longrightarrow>
      saves (final_state (GuildSettings_setattr st a key v)) = saves st \<and>
      backing_file (final_state (GuildSettings_setattr st a key v)) = backing_file st) \<and>
   (key \<in> set data_fields \<and> on_change (heap st ! a) = PFunc \<longrightarrow>
      saves (final_state (GuildSettings_setattr st a key v)) = saves st + 1)"
proof (intro conjI impI)
  show "saves (final_state (GuildSettings_init st kwargs)) = saves st"
    by (simp add: GuildSettings_init_eq final_state_def)
  show "backing_file (final_state (GuildSettings_init st kwargs)) = backing_file st"
    by (simp add: GuildSettings_init_eq final_state_def)
  show "saves (final_state (load st)) = saves st" using load_frame [of st] by simp
  show "backing_file (final_state (load st)) = backing_file st"
    using load_frame [of st] by simp
  show "saves (final_state (getitem st gid)) = saves st"
    by (simp add: getitem_def GuildSettings_init_eq final_state_def setitem_def
        split: option.splits)
  show "backing_file (final_state (getitem st gid)) = backing_file st"
    by (simp add: getitem_def GuildSettings_init_eq final_state_def setitem_def
        split: option.splits)
next
  assume c: "key = ''on_change'' \<or> \<not> callable (on_change (heap st ! a))"
  have u: "on_change obj = on_change (heap st ! a)"
    if "object_setattr (heap st ! a) key v = Inr obj" "key \<noteq> ''on_change''" for obj
    using that by (auto simp: object_setattr_def split: if_splits)
  show "saves (final_state (GuildSettings_setattr st a key v)) = saves st"
    using c u
    by (cases "object_setattr (heap st ! a) key v")
       (auto simp: GuildSettings_setattr_def final_state_def Let_def)
  show "backing_file (final_state (GuildSettings_setattr st a key v)) = backing_file st"
    using c u
    by (cases "object_setattr (heap st ! a) key v")
       (auto simp: GuildSettings_setattr_def final_state_def Let_def)
next
  assume h: "key \<in> set data_fields \<and> on_change (heap st ! a) = PFunc"
  from setattr_data_field [of key st a v] h obtain obj where
    "GuildSettings_setattr st a key v = Return () (save (st\<lparr>heap := (heap st)[a := obj]\<rparr>))"
    by (auto simp: callable_def)
  then show "saves (final_state (GuildSettings_setattr st a key v)) = saves st + 1"
    using save_frame [of "st\<lparr>heap := (heap st)[a := obj]\<rparr>"] by (simp add: final_state_def)
qed

theorem construction_never_saves_witness:
  "saves (final_state (getitem one_guild 2)) = saves one_guild \<and>
   final_state (getitem one_guild 2) = two_guilds \<and>
   (''on_change'' = ''on_change'' \<or> \<not> callable (on_change (heap two_guilds ! 0))) \<and>
   saves (final_state (GuildSettings_setattr two_guilds 0 ''on_change'' PFunc)) = saves two_guilds \<and>
   ''model'' \<in> set data_fields \<and> on_change (heap two_guilds ! 0) = PFunc \<and>
   saves (final_state (GuildSettings_setattr two_guilds 0 ''model'' (PStr ''phi''))) =
     saves two_guilds + 1"
proof -
  have a: "''model'' \<in> set data_fields \<and> on_change (heap two_guilds ! 0) = PFunc"
    by (simp add: data_fields_def two_guilds_def default_settings_def)
  have b: "final_state (getitem one_guild 2) = two_guilds"
    by (simp add: example_lookup_2 final_state_def)
  from construction_never_saves [of one_guild "[]" 2 "''on_change''" 0 PFunc]
  have c: "saves (final_state (getitem one_guild 2)) = saves one_guild" by blast
  from construction_never_saves [of two_guilds "[]" 2 "''on_change''" 0 PFunc]
  have d: "saves (final_state (GuildSettings_setattr two_guilds 0 ''on_change'' PFunc)) =
           saves two_guilds" by blast
  from construction_never_saves [of two_guilds "[]" 2 "''model''" 0 "PStr ''phi''"] a
  have e: "saves (final_state (GuildSettings_setattr two_guilds 0 ''model'' (PStr ''phi''))) =
     saves two_guilds + 1" by blast
  from a b c d e show ?thesis by blast
qed

end
